theory Spec2Isabelle
  imports Complex_Main "HOL-Library.Word" "HOL-Library.Signed_Division" "HOL-Library.Log_Nat"
begin

unbundle bit_operations_syntax

section \<open>Values and the collaborators of \<^verbatim>\<open>pbrt/samplers.h\<close>\<close>

text \<open>
  The samplers of \<^verbatim>\<open>src/pbrt/samplers.h\<close> are embedded as state-passing functions: a
  sampler object is a record of its members, a method takes the record and returns
  the result together with the updated record.

  \<^item> C++ \<^verbatim>\<open>int\<close> and \<^verbatim>\<open>int64_t\<close> members are HOL integers. Unsigned arithmetic
    (hashes, the Halton offset) wraps around: it is done on 64-bit and 32-bit words, or
    on integers reduced with \<open>u64\<close>. Sums and products of \<^verbatim>\<open>int\<close> that are formed
    from the caller's arguments are reduced to the two's complement range (\<open>s32\<close>,
    \<open>s64\<close>), the value the compiled code computes where C++ leaves signed overflow
    undefined; the theorems say which range they need. This includes the request
    count and the index of a Metropolis stream. The dimension cursor, which advances
    by one or two per call and restarts with every pixel sample, is an exact integer.
  \<^item> \<^verbatim>\<open>/\<close> and \<^verbatim>\<open>%\<close> on C++ integers truncate towards zero: \<open>sdiv\<close> and \<open>smod\<close>.
  \<^item> A \<^verbatim>\<open>Float\<close> value is a rational number. The rounding of the build's \<^verbatim>\<open>Float\<close>
    type (binary32, or binary64 under \<^verbatim>\<open>PBRT_FLOAT_AS_DOUBLE\<close>) is the parameter
    \<open>fl\<close>, applied after every arithmetic operation and conversion; infinities and
    NaN are outside the model.
  \<^item> Everything \<^verbatim>\<open>samplers.h\<close> uses but does not define (hash functions, radical
    inverses, Sobol' and blue-noise tables, constants of other headers) is a field of
    the record \<open>Env\<close>: the methods below are defined for every choice of them.
\<close>

type_synonym Float = rat
type_synonym Point2i = "int \<times> int"
type_synonym Point2f = "Float \<times> Float"
type_synonym DigitPermutation = "nat list"

datatype error = CheckFailed | FatalError | OutOfRange

datatype RandomizeStrategy = RS_None | RS_CranleyPatterson | RS_XOR | RS_Owen

datatype Randomizer =
    NoRandomizer
  | CranleyPattersonRotator_f Float
  | CranleyPattersonRotator_u "32 word"
  | XORScrambler "32 word"
  | OwenScrambler "32 word"

text \<open>
  Modelled from the spec: the class \<^verbatim>\<open>RNG\<close> (\<^verbatim>\<open>pbrt/util/rng.h\<close> is not among the
  sources). Section 4.5 describes "a seeded counter-based pseudo-random generator reseeded
  per pixel [...] and advanced deterministically [...] so that every (pixel, sample,
  dimension) triple maps to a unique, reproducible random stream position". Its state is
  therefore the selected sequence and the position in it: \<^verbatim>\<open>SetSequence\<close> reseeds
  (position 0 of the given sequence), \<^verbatim>\<open>Advance\<close> moves the position, and
  \<^verbatim>\<open>Uniform\<close> returns the value of the stream at the position and steps over it.
\<close>

record RNG =
  rng_sequence :: "64 word"
  rng_position :: "64 word"

record Env =
  fl :: "rat \<Rightarrow> Float"
  OneMinusEpsilon :: Float
  PrimeTableSize :: int
  NSobolDimensions :: int
  nPMJ02bnSets :: int
  Options_seed :: int
  PBRT_IS_GPU_CODE :: bool
  MixBits :: "64 word \<Rightarrow> 64 word"
  PermutationElement :: "32 word \<Rightarrow> 32 word \<Rightarrow> 32 word \<Rightarrow> int"
  InverseRadicalInverse :: "64 word \<Rightarrow> int \<Rightarrow> int \<Rightarrow> 64 word"
  RadicalInverse :: "int \<Rightarrow> 64 word \<Rightarrow> Float"
  ScrambledRadicalInverse :: "int \<Rightarrow> 64 word \<Rightarrow> DigitPermutation \<Rightarrow> Float"
  SobolSample :: "int \<Rightarrow> int \<Rightarrow> Randomizer \<Rightarrow> Float"
  SobolIntervalToIndex :: "32 word \<Rightarrow> 64 word \<Rightarrow> Point2i \<Rightarrow> 64 word"
  Log2Int :: "int \<Rightarrow> int"
  BlueNoise :: "int \<Rightarrow> Point2i \<Rightarrow> Float"
  GetPMJ02BNSample :: "int \<Rightarrow> int \<Rightarrow> Point2f"
  rng_stream :: "64 word \<Rightarrow> 64 word \<Rightarrow> Float"
  mlt_mutation :: "RNG \<Rightarrow> bool \<Rightarrow> Float \<Rightarrow> int \<Rightarrow> int \<Rightarrow> Float \<Rightarrow> int \<Rightarrow> Float \<times> RNG"

text \<open>The three operations of the generator modelled from the spec, as described above.\<close>

definition RNG_SetSequence :: "RNG \<Rightarrow> 64 word \<Rightarrow> RNG" where
  "RNG_SetSequence r sequenceIndex = \<lparr>rng_sequence = sequenceIndex, rng_position = 0\<rparr>"

definition RNG_Advance :: "RNG \<Rightarrow> int \<Rightarrow> RNG" where
  "RNG_Advance r idelta = r\<lparr>rng_position := rng_position r + word_of_int idelta\<rparr>"

definition RNG_Uniform :: "Env \<Rightarrow> RNG \<Rightarrow> Float \<times> RNG" where
  "RNG_Uniform env r =
     (rng_stream env (rng_sequence r) (rng_position r),
      r\<lparr>rng_position := rng_position r + 1\<rparr>)"

subsection \<open>Float arithmetic\<close>

definition Float_of_int :: "Env \<Rightarrow> int \<Rightarrow> Float" where
  "Float_of_int env i = fl env (of_int i)"

definition fadd :: "Env \<Rightarrow> Float \<Rightarrow> Float \<Rightarrow> Float" where
  "fadd env a b = fl env (a + b)"

definition fsub :: "Env \<Rightarrow> Float \<Rightarrow> Float \<Rightarrow> Float" where
  "fsub env a b = fl env (a - b)"

definition fmul :: "Env \<Rightarrow> Float \<Rightarrow> Float \<Rightarrow> Float" where
  "fmul env a b = fl env (a * b)"

definition fdiv :: "Env \<Rightarrow> Float \<Rightarrow> Float \<Rightarrow> Float" where
  "fdiv env a b = fl env (a / b)"

subsection \<open>The rounding of binary32\<close>

text \<open>
  The rounding of the default \<^verbatim>\<open>Float\<close>, IEEE 754 binary32 with round to nearest,
  ties to even: a number is rounded to a multiple of \<open>2\<^sup>e\<^sup>-\<^sup>2\<^sup>3\<close>, where \<open>e\<close> is the
  exponent of its binade and at least \<open>-126\<close> (below that the numbers are subnormal
  and spaced \<open>2\<^sup>-\<^sup>1\<^sup>4\<^sup>9\<close> apart). Overflow to infinity is outside the model.
\<close>

definition round_half_even :: "rat \<Rightarrow> int" where
  "round_half_even x =
     (let f = \<lfloor>x\<rfloor>; r = x - of_int f
      in if r < 1 / 2 then f else if 1 / 2 < r then f + 1 else if even f then f else f + 1)"

definition binary32_exponent :: "rat \<Rightarrow> int" where
  "binary32_exponent x = max (- 126) (int (floorlog 2 (nat \<lfloor>\<bar>x\<bar> * 2 ^ 149\<rfloor>)) - 150)"

definition binary32 :: "rat \<Rightarrow> Float" where
  "binary32 x =
     (let q = 2 powi (binary32_exponent x - 23)
      in sgn x * of_int (round_half_even (\<bar>x\<bar> / q)) * q)"

subsection \<open>Integer conversions and small helpers\<close>

text \<open>
  \<open>u64\<close> is the conversion to \<^verbatim>\<open>uint64_t\<close>, \<open>s64\<close> the conversion to \<^verbatim>\<open>int64_t\<close> and
  \<open>s32\<close> the two's complement value an \<^verbatim>\<open>int\<close> expression has on the machine.
\<close>

definition u64 :: "int \<Rightarrow> int" where
  "u64 x = take_bit 64 x"

definition s64 :: "int \<Rightarrow> int" where
  "s64 x = signed_take_bit 63 x"

definition s32 :: "int \<Rightarrow> int" where
  "s32 x = signed_take_bit 31 x"

text \<open>\<^verbatim>\<open>p[i]\<close> on a two-component point.\<close>

definition pt :: "'a \<times> 'a \<Rightarrow> nat \<Rightarrow> 'a" where
  "pt p i = (if i = 0 then fst p else snd p)"

text \<open>
  \<^verbatim>\<open>v[i]\<close> on a vector. An index outside the vector is undefined behaviour in the
  source; the model reports it.
\<close>

definition vec_at :: "'a list \<Rightarrow> int \<Rightarrow> error + 'a" where
  "vec_at xs i = (if 0 \<le> i \<and> i < int (length xs) then Inr (xs ! nat i) else Inl OutOfRange)"

text \<open>
  Modelled from the spec: the helpers \<^verbatim>\<open>Mod\<close> and \<^verbatim>\<open>Clamp\<close> of \<^verbatim>\<open>pbrt/util/math.h\<close>
  (not among the sources). \<^verbatim>\<open>Mod\<close> reduces a pixel coordinate into the "bounded tile
  of resolution up to 128x128" of section 4.2, so it is the remainder in \<open>[0, b)\<close>;
  \<^verbatim>\<open>Clamp\<close> is the "clamping" of section 4.3.
\<close>

definition Mod :: "int \<Rightarrow> int \<Rightarrow> int" where
  "Mod a b = a mod b"

definition Clamp :: "Float \<Rightarrow> Float \<Rightarrow> Float \<Rightarrow> Float" where
  "Clamp val low high = (if val < low then low else if val > high then high else val)"

text \<open>
  The hash of pixel, dimension and seed that three samplers compute with the same
  expression:
  \<^verbatim>\<open>MixBits(((uint64_t)pixel.x << 48) ^ ((uint64_t)pixel.y << 32) ^ ((uint64_t)dimension << 16) ^ seed)\<close>.
\<close>

definition pixel_hash :: "Env \<Rightarrow> Point2i \<Rightarrow> int \<Rightarrow> int \<Rightarrow> 64 word" where
  "pixel_hash env pixel dimension seed =
     MixBits env
       (push_bit 48 (word_of_int (fst pixel)) XOR push_bit 32 (word_of_int (snd pixel))
          XOR push_bit 16 (word_of_int dimension) XOR word_of_int seed)"

text \<open>\<^verbatim>\<open>PermutationElement(i, l, hash)\<close> with its arguments converted to \<^verbatim>\<open>uint32_t\<close>.\<close>

definition permuted_index :: "Env \<Rightarrow> int \<Rightarrow> int \<Rightarrow> 64 word \<Rightarrow> int" where
  "permuted_index env i l hash =
     PermutationElement env (word_of_int i) (word_of_int l) (ucast hash)"

section \<open>HaltonSampler\<close>

record HaltonSampler =
  h_samplesPerPixel :: int
  digitPermutations :: "DigitPermutation list"
  baseScales :: Point2i
  baseExponents :: Point2i
  multInverse :: "int \<times> int"
  haltonIndex :: int
  h_dimension :: int

definition MaxHaltonResolution :: int where
  "MaxHaltonResolution = 128"

definition Halton_SamplesPerPixel :: "HaltonSampler \<Rightarrow> int" where
  "Halton_SamplesPerPixel s = h_samplesPerPixel s"

text \<open>
  One round of the loop \<^verbatim>\<open>for (int i = 0; i < 2; ++i)\<close> of \<^verbatim>\<open>StartPixelSample\<close>: the
  product is formed in \<^verbatim>\<open>uint64_t\<close> and the sum is stored back into the \<^verbatim>\<open>int64_t\<close>
  member.
\<close>

definition Halton_offset_round ::
  "Env \<Rightarrow> HaltonSampler \<Rightarrow> Point2i \<Rightarrow> int \<Rightarrow> int \<Rightarrow> nat \<Rightarrow> int" where
  "Halton_offset_round env s pm sampleStride h i =
     (let dimOffset =
            (if i = 0
             then uint (InverseRadicalInverse env (word_of_int (pt pm i)) 2 (pt (baseExponents s) i))
             else uint (InverseRadicalInverse env (word_of_int (pt pm i)) 3 (pt (baseExponents s) i)))
      in s64 (h + dimOffset * u64 (sampleStride sdiv pt (baseScales s) i)
                    * u64 (pt (multInverse s) i)))"

definition Halton_StartPixelSample ::
  "Env \<Rightarrow> HaltonSampler \<Rightarrow> Point2i \<Rightarrow> int \<Rightarrow> int \<Rightarrow> HaltonSampler" where
  "Halton_StartPixelSample env s p sampleIndex dim0 =
     (let sampleStride = s32 (fst (baseScales s) * snd (baseScales s));
          h =
            (if sampleStride > 1 then
               (let pm = (Mod (pt p 0) MaxHaltonResolution, Mod (pt p 1) MaxHaltonResolution)
                in foldl (Halton_offset_round env s pm sampleStride) 0 [0, 1] smod sampleStride)
             else 0)
      in s\<lparr>haltonIndex := s64 (h + s32 (sampleIndex * sampleStride)), h_dimension := dim0\<rparr>)"

definition Halton_Get1D :: "Env \<Rightarrow> HaltonSampler \<Rightarrow> error + (Float \<times> HaltonSampler)" where
  "Halton_Get1D env s =
     (let dimension = (if h_dimension s \<ge> PrimeTableSize env then 2 else h_dimension s);
          d = dimension
      in case vec_at (digitPermutations s) d of
           Inl e \<Rightarrow> Inl e
         | Inr perm \<Rightarrow>
             Inr (ScrambledRadicalInverse env d (word_of_int (haltonIndex s)) perm,
                  s\<lparr>h_dimension := dimension + 1\<rparr>))"

definition Halton_Get2D :: "Env \<Rightarrow> HaltonSampler \<Rightarrow> error + (Point2f \<times> HaltonSampler)" where
  "Halton_Get2D env s =
     (if h_dimension s = 0 then
        Inr ((RadicalInverse env 0
                (word_of_int (drop_bit (nat (pt (baseExponents s) 0)) (haltonIndex s))),
              RadicalInverse env 1 (word_of_int (haltonIndex s sdiv pt (baseScales s) 1))),
             s\<lparr>h_dimension := h_dimension s + 2\<rparr>)
      else
        (let dimension = (if h_dimension s + 1 \<ge> PrimeTableSize env then 2 else h_dimension s);
             d = dimension
         in case vec_at (digitPermutations s) d of
              Inl e \<Rightarrow> Inl e
            | Inr perm0 \<Rightarrow>
                (case vec_at (digitPermutations s) (d + 1) of
                   Inl e \<Rightarrow> Inl e
                 | Inr perm1 \<Rightarrow>
                     Inr ((ScrambledRadicalInverse env d (word_of_int (haltonIndex s)) perm0,
                           ScrambledRadicalInverse env (d + 1) (word_of_int (haltonIndex s)) perm1),
                          s\<lparr>h_dimension := dimension + 2\<rparr>))))"

text \<open>
  The private methods \<^verbatim>\<open>extendedGCD\<close> and \<^verbatim>\<open>multiplicativeInverse\<close>. The arguments of
  \<^verbatim>\<open>extendedGCD\<close> are \<^verbatim>\<open>uint64_t\<close>, its results are written through \<^verbatim>\<open>int64_t\<close>
  pointers.
\<close>

fun extendedGCD :: "nat \<Rightarrow> nat \<Rightarrow> int \<times> int" where
  "extendedGCD a b =
     (if b = 0 then (1, 0)
      else (case extendedGCD b (a mod b) of
              (xp, yp) \<Rightarrow> (yp, s64 (xp - s64 (s64 (int (a div b)) * yp)))))"

declare extendedGCD.simps [simp del]

definition multiplicativeInverse :: "int \<Rightarrow> int \<Rightarrow> int" where
  "multiplicativeInverse a n =
     (case extendedGCD (nat (u64 a)) (nat (u64 n)) of (x, y) \<Rightarrow> u64 (Mod x n))"

section \<open>PaddedSobolSampler\<close>

record PaddedSobolSampler =
  ps_samplesPerPixel :: int
  ps_randomizeStrategy :: RandomizeStrategy
  ps_pixel :: Point2i
  ps_sampleIndex :: int
  ps_dimension :: int

definition PaddedSobol_SamplesPerPixel :: "PaddedSobolSampler \<Rightarrow> int" where
  "PaddedSobol_SamplesPerPixel s = ps_samplesPerPixel s"

definition PaddedSobol_StartPixelSample ::
  "PaddedSobolSampler \<Rightarrow> Point2i \<Rightarrow> int \<Rightarrow> int \<Rightarrow> PaddedSobolSampler" where
  "PaddedSobol_StartPixelSample s p index dim0 =
     s\<lparr>ps_pixel := p, ps_sampleIndex := index, ps_dimension := dim0\<rparr>"

definition PaddedSobol_SampleDimension ::
  "Env \<Rightarrow> PaddedSobolSampler \<Rightarrow> int \<Rightarrow> 32 word \<Rightarrow> 32 word \<Rightarrow> error + Float" where
  "PaddedSobol_SampleDimension env s dimension a hash =
     (case ps_randomizeStrategy s of
        RS_None \<Rightarrow> Inr (SobolSample env (uint a) dimension NoRandomizer)
      | RS_XOR \<Rightarrow> Inr (SobolSample env (uint a) dimension (XORScrambler hash))
      | RS_Owen \<Rightarrow> Inr (SobolSample env (uint a) dimension (OwenScrambler hash))
      | RS_CranleyPatterson \<Rightarrow> Inl FatalError)"

definition PaddedSobol_Get1D ::
  "Env \<Rightarrow> PaddedSobolSampler \<Rightarrow> error + (Float \<times> PaddedSobolSampler)" where
  "PaddedSobol_Get1D env s =
     (let hash = pixel_hash env (ps_pixel s) (ps_dimension s) (Options_seed env);
          index = permuted_index env (ps_sampleIndex s) (ps_samplesPerPixel s) hash;
          d = ps_dimension s;
          s' = s\<lparr>ps_dimension := ps_dimension s + 1\<rparr>
      in if ps_randomizeStrategy s = RS_CranleyPatterson then
           Inr (SobolSample env index 0 (CranleyPattersonRotator_f (BlueNoise env d (ps_pixel s))), s')
         else
           (case PaddedSobol_SampleDimension env s 0 (word_of_int index) (ucast (drop_bit 32 hash)) of
              Inl e \<Rightarrow> Inl e
            | Inr v \<Rightarrow> Inr (v, s')))"

definition PaddedSobol_Get2D ::
  "Env \<Rightarrow> PaddedSobolSampler \<Rightarrow> error + (Point2f \<times> PaddedSobolSampler)" where
  "PaddedSobol_Get2D env s =
     (let hash = pixel_hash env (ps_pixel s) (ps_dimension s) (Options_seed env);
          index = permuted_index env (ps_sampleIndex s) (ps_samplesPerPixel s) hash;
          d = ps_dimension s;
          s' = s\<lparr>ps_dimension := ps_dimension s + 2\<rparr>
      in if ps_randomizeStrategy s = RS_CranleyPatterson then
           Inr ((SobolSample env index 0 (CranleyPattersonRotator_f (BlueNoise env d (ps_pixel s))),
                 SobolSample env index 1
                   (CranleyPattersonRotator_f (BlueNoise env (d + 1) (ps_pixel s)))), s')
         else
           (case PaddedSobol_SampleDimension env s 0 (word_of_int index) (ucast (drop_bit 8 hash)) of
              Inl e \<Rightarrow> Inl e
            | Inr v0 \<Rightarrow>
                (case PaddedSobol_SampleDimension env s 1 (word_of_int index)
                        (ucast (drop_bit 32 hash)) of
                   Inl e \<Rightarrow> Inl e
                 | Inr v1 \<Rightarrow> Inr ((v0, v1), s'))))"

section \<open>PMJ02BNSampler\<close>

record PMJ02BNSampler =
  pmj_samplesPerPixel :: int
  pmj_seed :: int
  pixelTileSize :: int
  pixelSamples :: "Point2f list"
  pmj_pixel :: Point2i
  pmj_sampleIndex :: int
  pmj_dimension :: int

definition PMJ02BN_SamplesPerPixel :: "PMJ02BNSampler \<Rightarrow> int" where
  "PMJ02BN_SamplesPerPixel s = pmj_samplesPerPixel s"

definition PMJ02BN_StartPixelSample ::
  "PMJ02BNSampler \<Rightarrow> Point2i \<Rightarrow> int \<Rightarrow> int \<Rightarrow> PMJ02BNSampler" where
  "PMJ02BN_StartPixelSample s p index dim0 =
     s\<lparr>pmj_pixel := p, pmj_sampleIndex := index, pmj_dimension := dim0\<rparr>"

definition PMJ02BN_Get1D :: "Env \<Rightarrow> PMJ02BNSampler \<Rightarrow> error + (Float \<times> PMJ02BNSampler)" where
  "PMJ02BN_Get1D env s =
     (let hash = pixel_hash env (pmj_pixel s) (pmj_dimension s) (pmj_seed s);
          index = permuted_index env (pmj_sampleIndex s) (pmj_samplesPerPixel s) hash;
          delta = BlueNoise env (pmj_dimension s) (pmj_pixel s)
      in Inr (min (fdiv env (fadd env (Float_of_int env index) delta)
                     (Float_of_int env (pmj_samplesPerPixel s)))
                (OneMinusEpsilon env),
              s\<lparr>pmj_dimension := pmj_dimension s + 1\<rparr>))"

definition PMJ02BN_Get2D :: "Env \<Rightarrow> PMJ02BNSampler \<Rightarrow> error + (Point2f \<times> PMJ02BNSampler)" where
  "PMJ02BN_Get2D env s =
     (if pmj_dimension s = 0 then
        (let px = fst (pmj_pixel s) smod pixelTileSize s;
             py = snd (pmj_pixel s) smod pixelTileSize s;
             offset = (px + py * pixelTileSize s) * pmj_samplesPerPixel s
         in case vec_at (pixelSamples s) (offset + pmj_sampleIndex s) of
              Inl e \<Rightarrow> Inl e
            | Inr u \<Rightarrow> Inr (u, s\<lparr>pmj_dimension := pmj_dimension s + 2\<rparr>))
      else
        (let pmjInstance = pmj_dimension s sdiv 2;
             index =
               (if pmjInstance \<ge> nPMJ02bnSets env then
                  permuted_index env (pmj_sampleIndex s) (pmj_samplesPerPixel s)
                    (pixel_hash env (pmj_pixel s) (pmj_dimension s) (pmj_seed s))
                else pmj_sampleIndex s);
             u = GetPMJ02BNSample env pmjInstance index;
             ux = fadd env (fst u) (BlueNoise env (pmj_dimension s) (pmj_pixel s));
             uy = fadd env (snd u) (BlueNoise env (pmj_dimension s + 1) (pmj_pixel s));
             ux' = (if ux \<ge> 1 then fsub env ux 1 else ux);
             uy' = (if uy \<ge> 1 then fsub env uy 1 else uy)
         in Inr ((min ux' (OneMinusEpsilon env), min uy' (OneMinusEpsilon env)),
                 s\<lparr>pmj_dimension := pmj_dimension s + 2\<rparr>)))"

section \<open>RandomSampler\<close>

record RandomSampler =
  r_samplesPerPixel :: int
  r_seed :: int
  r_rng :: RNG

definition Random_SamplesPerPixel :: "RandomSampler \<Rightarrow> int" where
  "Random_SamplesPerPixel s = r_samplesPerPixel s"

definition Random_StartPixelSample ::
  "RandomSampler \<Rightarrow> Point2i \<Rightarrow> int \<Rightarrow> int \<Rightarrow> RandomSampler" where
  "Random_StartPixelSample s p sampleIndex dimension =
     s\<lparr>r_rng :=
          RNG_Advance
            (RNG_SetSequence (r_rng s)
               (word_of_int (s32 (fst p + snd p * 65536)) OR push_bit 32 (word_of_int (r_seed s))))
            (s32 (sampleIndex * 65536 + dimension))\<rparr>"

definition Random_Get1D :: "Env \<Rightarrow> RandomSampler \<Rightarrow> error + (Float \<times> RandomSampler)" where
  "Random_Get1D env s =
     (case RNG_Uniform env (r_rng s) of (v, r) \<Rightarrow> Inr (v, s\<lparr>r_rng := r\<rparr>))"

definition Random_Get2D :: "Env \<Rightarrow> RandomSampler \<Rightarrow> error + (Point2f \<times> RandomSampler)" where
  "Random_Get2D env s =
     (case RNG_Uniform env (r_rng s) of (v0, r0) \<Rightarrow>
        (case RNG_Uniform env r0 of (v1, r1) \<Rightarrow> Inr ((v0, v1), s\<lparr>r_rng := r1\<rparr>)))"

section \<open>SobolSampler\<close>

record SobolSampler =
  sob_samplesPerPixel :: int
  sob_scale :: int
  sob_randomizeStrategy :: RandomizeStrategy
  sob_pixel :: Point2i
  sob_dimension :: int
  sobolIndex :: int

definition Sobol_SamplesPerPixel :: "SobolSampler \<Rightarrow> int" where
  "Sobol_SamplesPerPixel s = sob_samplesPerPixel s"

definition Sobol_StartPixelSample ::
  "Env \<Rightarrow> SobolSampler \<Rightarrow> Point2i \<Rightarrow> int \<Rightarrow> int \<Rightarrow> SobolSampler" where
  "Sobol_StartPixelSample env s p sampleIndex dim0 =
     s\<lparr>sob_pixel := p, sob_dimension := dim0,
        sobolIndex :=
          sint (SobolIntervalToIndex env (word_of_int (Log2Int env (sob_scale s)))
                  (word_of_int sampleIndex) p)\<rparr>"

definition Sobol_SampleDimension :: "Env \<Rightarrow> SobolSampler \<Rightarrow> int \<Rightarrow> Float" where
  "Sobol_SampleDimension env s dimension =
     (if dimension < 2 \<or> sob_randomizeStrategy s = RS_None then
        SobolSample env (sobolIndex s) dimension NoRandomizer
      else
        (let hash = (ucast (MixBits env (push_bit 32 (word_of_int dimension)
                                XOR word_of_int (Options_seed env))) :: 32 word)
         in if sob_randomizeStrategy s = RS_CranleyPatterson then
              SobolSample env (sobolIndex s) dimension (CranleyPattersonRotator_u hash)
            else if sob_randomizeStrategy s = RS_XOR then
              SobolSample env (sobolIndex s) dimension (XORScrambler hash)
            else SobolSample env (sobolIndex s) dimension (OwenScrambler hash)))"

definition Sobol_Get1D :: "Env \<Rightarrow> SobolSampler \<Rightarrow> error + (Float \<times> SobolSampler)" where
  "Sobol_Get1D env s =
     (let dimension = (if sob_dimension s \<ge> NSobolDimensions env then 2 else sob_dimension s)
      in Inr (Sobol_SampleDimension env s dimension, s\<lparr>sob_dimension := dimension + 1\<rparr>))"

definition Sobol_remap :: "Env \<Rightarrow> SobolSampler \<Rightarrow> Float \<Rightarrow> nat \<Rightarrow> Float" where
  "Sobol_remap env s u i =
     Clamp (fsub env (fmul env u (Float_of_int env (sob_scale s)))
              (Float_of_int env (pt (sob_pixel s) i)))
       0 (OneMinusEpsilon env)"

definition Sobol_Get2D :: "Env \<Rightarrow> SobolSampler \<Rightarrow> error + (Point2f \<times> SobolSampler)" where
  "Sobol_Get2D env s =
     (let dimension = (if sob_dimension s + 1 \<ge> NSobolDimensions env then 2 else sob_dimension s);
          u = (Sobol_SampleDimension env s dimension, Sobol_SampleDimension env s (dimension + 1));
          u' = (if dimension = 0 then (Sobol_remap env s (fst u) 0, Sobol_remap env s (snd u) 1)
                else u)
      in Inr (u', s\<lparr>sob_dimension := dimension + 2\<rparr>))"

section \<open>StratifiedSampler\<close>

record StratifiedSampler =
  xPixelSamples :: int
  yPixelSamples :: int
  st_seed :: int
  jitter :: bool
  st_rng :: RNG
  st_pixel :: Point2i
  st_sampleIndex :: int
  st_dimension :: int

definition Stratified_SamplesPerPixel :: "StratifiedSampler \<Rightarrow> int" where
  "Stratified_SamplesPerPixel s = s32 (xPixelSamples s * yPixelSamples s)"

definition Stratified_StartPixelSample ::
  "StratifiedSampler \<Rightarrow> Point2i \<Rightarrow> int \<Rightarrow> int \<Rightarrow> StratifiedSampler" where
  "Stratified_StartPixelSample s p index dim0 =
     s\<lparr>st_pixel := p, st_sampleIndex := index, st_dimension := dim0,
        st_rng :=
          RNG_Advance
            (RNG_SetSequence (st_rng s)
               (word_of_int (s32 (fst p + snd p * 65536)) OR push_bit 32 (word_of_int (st_seed s))))
            (s32 (index * 65536 + dim0))\<rparr>"

text \<open>\<^verbatim>\<open>jitter ? rng.Uniform<Float>() : 0.5f\<close>\<close>

definition Stratified_delta :: "Env \<Rightarrow> bool \<Rightarrow> RNG \<Rightarrow> Float \<times> RNG" where
  "Stratified_delta env j r = (if j then RNG_Uniform env r else (1 / 2, r))"

definition Stratified_Get1D ::
  "Env \<Rightarrow> StratifiedSampler \<Rightarrow> error + (Float \<times> StratifiedSampler)" where
  "Stratified_Get1D env s =
     (let hash = pixel_hash env (st_pixel s) (st_dimension s) (st_seed s);
          stratum = permuted_index env (st_sampleIndex s) (Stratified_SamplesPerPixel s) hash
      in case Stratified_delta env (jitter s) (st_rng s) of (delta, r) \<Rightarrow>
           Inr (fdiv env (fadd env (Float_of_int env stratum) delta)
                  (Float_of_int env (Stratified_SamplesPerPixel s)),
                s\<lparr>st_dimension := st_dimension s + 1, st_rng := r\<rparr>))"

definition Stratified_Get2D ::
  "Env \<Rightarrow> StratifiedSampler \<Rightarrow> error + (Point2f \<times> StratifiedSampler)" where
  "Stratified_Get2D env s =
     (let hash = pixel_hash env (st_pixel s) (st_dimension s) (st_seed s);
          stratum = permuted_index env (st_sampleIndex s) (Stratified_SamplesPerPixel s) hash;
          x = stratum smod xPixelSamples s;
          y = stratum sdiv xPixelSamples s
      in case Stratified_delta env (jitter s) (st_rng s) of (dx, r0) \<Rightarrow>
           (case Stratified_delta env (jitter s) r0 of (dy, r1) \<Rightarrow>
              Inr ((fdiv env (fadd env (Float_of_int env x) dx) (Float_of_int env (xPixelSamples s)),
                    fdiv env (fadd env (Float_of_int env y) dy) (Float_of_int env (yPixelSamples s))),
                   s\<lparr>st_dimension := st_dimension s + 2, st_rng := r1\<rparr>)))"

section \<open>MLTSampler\<close>

record PrimarySample =
  "value" :: Float
  lastModificationIteration :: int
  valueBackup :: Float
  modifyBackup :: int

definition Backup :: "PrimarySample \<Rightarrow> PrimarySample" where
  "Backup x = x\<lparr>valueBackup := value x, modifyBackup := lastModificationIteration x\<rparr>"

definition Restore :: "PrimarySample \<Rightarrow> PrimarySample" where
  "Restore x = x\<lparr>value := valueBackup x, lastModificationIteration := modifyBackup x\<rparr>"

record MLTSampler =
  mutationsPerPixel :: int
  mlt_rng :: RNG
  sigma :: Float
  largeStepProbability :: Float
  streamCount :: int
  X :: "PrimarySample list"
  currentIteration :: int
  largeStep :: bool
  lastLargeStepIteration :: int
  streamIndex :: int
  mlt_sampleIndex :: int

text \<open>
  \<^verbatim>\<open>return streamIndex + streamCount * sampleIndex++;\<close> The product, the sum and the
  increment are formed in \<^verbatim>\<open>int\<close>.
\<close>

definition GetNextIndex :: "'a MLTSampler_scheme \<Rightarrow> int \<times> 'a MLTSampler_scheme" where
  "GetNextIndex m =
     (s32 (streamIndex m + s32 (streamCount m * mlt_sampleIndex m)),
      m\<lparr>mlt_sampleIndex := s32 (mlt_sampleIndex m + 1)\<rparr>)"

definition MLT_StartPixelSample ::
  "'a MLTSampler_scheme \<Rightarrow> Point2i \<Rightarrow> int \<Rightarrow> int \<Rightarrow> 'a MLTSampler_scheme" where
  "MLT_StartPixelSample m p sampleIndex dim0 =
     m\<lparr>mlt_rng :=
          RNG_Advance (RNG_SetSequence (mlt_rng m) (word_of_int (s32 (fst p + snd p * 65536))))
            (s32 (sampleIndex * 65536 + dim0 * 8192))\<rparr>"

text \<open>
  Modelled from the spec: \<^verbatim>\<open>MLTSampler::StartStream\<close> is declared in \<^verbatim>\<open>samplers.h\<close>
  and defined elsewhere. Section 4.6: "samples are consumed through a fixed number of
  independent logical streams [...] the global primary-sample index for the n-th request in
  stream s is s + streamCount * n": starting a stream selects it and restarts the count
  of its requests.
\<close>

definition StartStream :: "'a MLTSampler_scheme \<Rightarrow> int \<Rightarrow> 'a MLTSampler_scheme" where
  "StartStream m index = m\<lparr>streamIndex := index, mlt_sampleIndex := 0\<rparr>"

text \<open>The indices returned by \<open>n\<close> successive calls of \<^verbatim>\<open>GetNextIndex\<close>.\<close>

fun GetNextIndex_n :: "nat \<Rightarrow> 'a MLTSampler_scheme \<Rightarrow> int list \<times> 'a MLTSampler_scheme" where
  "GetNextIndex_n 0 m = ([], m)"
| "GetNextIndex_n (Suc n) m =
     (case GetNextIndex m of (i, m') \<Rightarrow>
        (case GetNextIndex_n n m' of (is, m'') \<Rightarrow> (i # is, m'')))"

text \<open>
  Modelled from the spec: \<^verbatim>\<open>StartIteration\<close>, \<^verbatim>\<open>EnsureReady\<close> and \<^verbatim>\<open>Reject\<close> are
  declared in \<^verbatim>\<open>samplers.h\<close> and defined elsewhere. Section 4.6:
  \<^item> StartIteration "increments the iteration counter; with probability
    largeStepProbability marks this iteration a large step [...]; resets the
    per-iteration stream/sample cursors";
  \<^item> EnsureReady(index) "lazily materializes the primary sample at index up to the
    current iteration [...]. Always backs up the prior value/iteration before mutating,
    so the mutation is undoable". The vector \<open>X\<close> grows to hold the index, with samples
    in the state of their default member initialisers. Which value the mutation
    writes (fresh uniform, replayed small steps) is left to the field \<open>mlt_mutation\<close>
    of the environment;
  \<^item> Reject "restores every primary sample touched during this iteration from its
    backup (value and modification iteration), then rewinds the iteration counter".
    A sample was touched during this iteration when its modification iteration is the
    current one (section 3: a primary sample is "tagged with the iteration number at
    which it was last modified").
\<close>

definition PrimarySample_init :: PrimarySample where
  "PrimarySample_init =
     \<lparr>value = 0, lastModificationIteration = 0, valueBackup = 0, modifyBackup = 0\<rparr>"

definition StartIteration :: "Env \<Rightarrow> 'a MLTSampler_scheme \<Rightarrow> 'a MLTSampler_scheme" where
  "StartIteration env m =
     (case RNG_Uniform env (mlt_rng m) of (r, rng') \<Rightarrow>
        m\<lparr>currentIteration := currentIteration m + 1,
          largeStep := (r < largeStepProbability m),
          mlt_rng := rng', streamIndex := 0, mlt_sampleIndex := 0\<rparr>)"

definition EnsureReady :: "Env \<Rightarrow> 'a MLTSampler_scheme \<Rightarrow> int \<Rightarrow> 'a MLTSampler_scheme" where
  "EnsureReady env m index =
     (let X1 = X m @ replicate (nat (index + 1) - length (X m)) PrimarySample_init;
          Xi = Backup (X1 ! nat index)
      in case mlt_mutation env (mlt_rng m) (largeStep m) (sigma m) (lastLargeStepIteration m)
                (currentIteration m) (value Xi) (lastModificationIteration Xi) of
           (v, rng') \<Rightarrow>
             m\<lparr>X := X1[nat index := Xi\<lparr>value := v, lastModificationIteration := currentIteration m\<rparr>],
               mlt_rng := rng'\<rparr>)"

definition Reject :: "'a MLTSampler_scheme \<Rightarrow> 'a MLTSampler_scheme" where
  "Reject m =
     m\<lparr>X := map (\<lambda>X_i. if lastModificationIteration X_i = currentIteration m
                         then Restore X_i else X_i) (X m),
       currentIteration := currentIteration m - 1\<rparr>"

text \<open>
  One rejected proposal: \<^verbatim>\<open>StartIteration\<close>, \<^verbatim>\<open>EnsureReady\<close> on each index of a list,
  \<^verbatim>\<open>Reject\<close>.
\<close>

definition rejected_iteration :: "Env \<Rightarrow> 'a MLTSampler_scheme \<Rightarrow> int list \<Rightarrow> 'a MLTSampler_scheme" where
  "rejected_iteration env m idxs = Reject (foldl (EnsureReady env) (StartIteration env m) idxs)"

text \<open>The part of a primary sample that a rejection has to restore.\<close>

definition visible :: "PrimarySample \<Rightarrow> Float \<times> int" where
  "visible x = (value x, lastModificationIteration x)"

text \<open>
  The vector after \<^verbatim>\<open>EnsureReady\<close> made room for an index, and the sample a vector
  holds at a position once it has grown that far.
\<close>

definition grown :: "PrimarySample list \<Rightarrow> int \<Rightarrow> PrimarySample list" where
  "grown xs i = xs @ replicate (nat (i + 1) - length xs) PrimarySample_init"

definition padded :: "PrimarySample list \<Rightarrow> nat \<Rightarrow> PrimarySample" where
  "padded xs j = (if j < length xs then xs ! j else PrimarySample_init)"

text \<open>The state in the middle of an iteration, after the samples of idxs were readied.\<close>

definition mid :: "Env \<Rightarrow> 'a MLTSampler_scheme \<Rightarrow> int list \<Rightarrow> 'a MLTSampler_scheme" where
  "mid env m idxs = foldl (EnsureReady env) (StartIteration env m) idxs"

section \<open>DebugMLTSampler\<close>

record DebugMLTSampler = MLTSampler +
  dbg_u :: "Float list"

text \<open>
  \<^verbatim>\<open>CHECK_LT(index, u.size())\<close> compares an \<^verbatim>\<open>int\<close> with a \<^verbatim>\<open>size_t\<close>: the index is
  converted to unsigned, so a negative index fails the check as one beyond the end
  does. The check aborts the process (\<open>Inl CheckFailed\<close>). Under
  \<^verbatim>\<open>PBRT_IS_GPU_CODE\<close> the function returns 0 after the check.
\<close>

definition DebugMLT_Get1D :: "Env \<Rightarrow> DebugMLTSampler \<Rightarrow> error + (Float \<times> DebugMLTSampler)" where
  "DebugMLT_Get1D env m =
     (case GetNextIndex m of (index, m') \<Rightarrow>
        if \<not> (0 \<le> index \<and> index < int (length (dbg_u m'))) then Inl CheckFailed
        else if PBRT_IS_GPU_CODE env then Inr (0, m')
        else Inr (dbg_u m' ! nat index, m'))"

definition DebugMLT_Get2D :: "Env \<Rightarrow> DebugMLTSampler \<Rightarrow> error + (Point2f \<times> DebugMLTSampler)" where
  "DebugMLT_Get2D env m =
     (case DebugMLT_Get1D env m of
        Inl e \<Rightarrow> Inl e
      | Inr (a, m') \<Rightarrow>
          (case DebugMLT_Get1D env m' of
             Inl e \<Rightarrow> Inl e
           | Inr (b, m'') \<Rightarrow> Inr ((a, b), m'')))"

section \<open>The generator variants behind one interface\<close>

text \<open>
  The six generator variants of section 2 of the specification, and the dispatching
  methods of \<^verbatim>\<open>SamplerHandle\<close> at the end of \<^verbatim>\<open>samplers.h\<close>.
\<close>

datatype Sampler =
    Halton HaltonSampler
  | PaddedSobol PaddedSobolSampler
  | PMJ02BN PMJ02BNSampler
  | Random RandomSampler
  | Sobol SobolSampler
  | Stratified StratifiedSampler

fun StartPixelSample :: "Env \<Rightarrow> Sampler \<Rightarrow> Point2i \<Rightarrow> int \<Rightarrow> int \<Rightarrow> Sampler" where
  "StartPixelSample env (Halton s) p sampleIndex dimension =
     Halton (Halton_StartPixelSample env s p sampleIndex dimension)"
| "StartPixelSample env (PaddedSobol s) p sampleIndex dimension =
     PaddedSobol (PaddedSobol_StartPixelSample s p sampleIndex dimension)"
| "StartPixelSample env (PMJ02BN s) p sampleIndex dimension =
     PMJ02BN (PMJ02BN_StartPixelSample s p sampleIndex dimension)"
| "StartPixelSample env (Random s) p sampleIndex dimension =
     Random (Random_StartPixelSample s p sampleIndex dimension)"
| "StartPixelSample env (Sobol s) p sampleIndex dimension =
     Sobol (Sobol_StartPixelSample env s p sampleIndex dimension)"
| "StartPixelSample env (Stratified s) p sampleIndex dimension =
     Stratified (Stratified_StartPixelSample s p sampleIndex dimension)"

fun SamplesPerPixel :: "Sampler \<Rightarrow> int" where
  "SamplesPerPixel (Halton s) = Halton_SamplesPerPixel s"
| "SamplesPerPixel (PaddedSobol s) = PaddedSobol_SamplesPerPixel s"
| "SamplesPerPixel (PMJ02BN s) = PMJ02BN_SamplesPerPixel s"
| "SamplesPerPixel (Random s) = Random_SamplesPerPixel s"
| "SamplesPerPixel (Sobol s) = Sobol_SamplesPerPixel s"
| "SamplesPerPixel (Stratified s) = Stratified_SamplesPerPixel s"

text \<open>A result paired with the updated object, re-tagged with its variant.\<close>

definition tagged :: "('s \<Rightarrow> Sampler) \<Rightarrow> error + ('v \<times> 's) \<Rightarrow> error + ('v \<times> Sampler)" where
  "tagged C r = (case r of Inl e \<Rightarrow> Inl e | Inr (v, s) \<Rightarrow> Inr (v, C s))"

fun Get1D :: "Env \<Rightarrow> Sampler \<Rightarrow> error + (Float \<times> Sampler)" where
  "Get1D env (Halton s) = tagged Halton (Halton_Get1D env s)"
| "Get1D env (PaddedSobol s) = tagged PaddedSobol (PaddedSobol_Get1D env s)"
| "Get1D env (PMJ02BN s) = tagged PMJ02BN (PMJ02BN_Get1D env s)"
| "Get1D env (Random s) = tagged Random (Random_Get1D env s)"
| "Get1D env (Sobol s) = tagged Sobol (Sobol_Get1D env s)"
| "Get1D env (Stratified s) = tagged Stratified (Stratified_Get1D env s)"

fun Get2D :: "Env \<Rightarrow> Sampler \<Rightarrow> error + (Point2f \<times> Sampler)" where
  "Get2D env (Halton s) = tagged Halton (Halton_Get2D env s)"
| "Get2D env (PaddedSobol s) = tagged PaddedSobol (PaddedSobol_Get2D env s)"
| "Get2D env (PMJ02BN s) = tagged PMJ02BN (PMJ02BN_Get2D env s)"
| "Get2D env (Random s) = tagged Random (Random_Get2D env s)"
| "Get2D env (Sobol s) = tagged Sobol (Sobol_Get2D env s)"
| "Get2D env (Stratified s) = tagged Stratified (Stratified_Get2D env s)"

subsection \<open>Sequences of requests\<close>

datatype request = Request1D | Request2D

datatype sample = Sample1D Float | Sample2D Point2f

text \<open>
  The caller's loop: the requests are issued in order on the same object; the first
  failure ends the run.
\<close>

fun run :: "Env \<Rightarrow> request list \<Rightarrow> Sampler \<Rightarrow> error + (sample list \<times> Sampler)" where
  "run env [] s = Inr ([], s)"
| "run env (Request1D # rs) s =
     (case Get1D env s of
        Inl e \<Rightarrow> Inl e
      | Inr (v, s') \<Rightarrow>
          (case run env rs s' of Inl e \<Rightarrow> Inl e | Inr (vs, s'') \<Rightarrow> Inr (Sample1D v # vs, s'')))"
| "run env (Request2D # rs) s =
     (case Get2D env s of
        Inl e \<Rightarrow> Inl e
      | Inr (v, s') \<Rightarrow>
          (case run env rs s' of Inl e \<Rightarrow> Inl e | Inr (vs, s'') \<Rightarrow> Inr (Sample2D v # vs, s'')))"

text \<open>
  Two objects of the same variant built from the same construction parameters, such
  as two clones: they agree on every member that \<^verbatim>\<open>StartPixelSample\<close>, \<^verbatim>\<open>Get1D\<close> and
  \<^verbatim>\<open>Get2D\<close> never assign, and may differ in all the others.
\<close>

fun same_construction :: "Sampler \<Rightarrow> Sampler \<Rightarrow> bool" where
  "same_construction (Halton a) (Halton b) =
     (h_samplesPerPixel a = h_samplesPerPixel b \<and> digitPermutations a = digitPermutations b
      \<and> baseScales a = baseScales b \<and> baseExponents a = baseExponents b
      \<and> multInverse a = multInverse b)"
| "same_construction (PaddedSobol a) (PaddedSobol b) =
     (ps_samplesPerPixel a = ps_samplesPerPixel b
      \<and> ps_randomizeStrategy a = ps_randomizeStrategy b)"
| "same_construction (PMJ02BN a) (PMJ02BN b) =
     (pmj_samplesPerPixel a = pmj_samplesPerPixel b \<and> pmj_seed a = pmj_seed b
      \<and> pixelTileSize a = pixelTileSize b \<and> pixelSamples a = pixelSamples b)"
| "same_construction (Random a) (Random b) =
     (r_samplesPerPixel a = r_samplesPerPixel b \<and> r_seed a = r_seed b)"
| "same_construction (Sobol a) (Sobol b) =
     (sob_samplesPerPixel a = sob_samplesPerPixel b \<and> sob_scale a = sob_scale b
      \<and> sob_randomizeStrategy a = sob_randomizeStrategy b)"
| "same_construction (Stratified a) (Stratified b) =
     (xPixelSamples a = xPixelSamples b \<and> yPixelSamples a = yPixelSamples b
      \<and> st_seed a = st_seed b \<and> jitter a = jitter b)"
| "same_construction _ _ = False"

section \<open>Notions used in the statements\<close>

subsection \<open>The dimension cursor\<close>

text \<open>
  The cursor of a sampler is its \<^verbatim>\<open>dimension\<close> member. The RandomSampler has none: its
  position in the random stream plays that part (a 64-bit counter). \<open>wraps1\<close> and
  \<open>wraps2\<close> say when a \<^verbatim>\<open>Get1D\<close>, respectively \<^verbatim>\<open>Get2D\<close>, call restarts at
  dimension 2: the wraparound of sections 4.2 and 4.3 of the specification, which only
  the Halton and Sobol' samplers have. \<open>advanced s c n\<close> is the cursor \<open>n\<close> steps
  after \<open>c\<close>.
\<close>

fun cursor :: "Sampler \<Rightarrow> int" where
  "cursor (Halton s) = h_dimension s"
| "cursor (PaddedSobol s) = ps_dimension s"
| "cursor (PMJ02BN s) = pmj_dimension s"
| "cursor (Random s) = uint (rng_position (r_rng s))"
| "cursor (Sobol s) = sob_dimension s"
| "cursor (Stratified s) = st_dimension s"

fun wraps1 :: "Env \<Rightarrow> Sampler \<Rightarrow> bool" where
  "wraps1 env (Halton s) = (PrimeTableSize env \<le> h_dimension s)"
| "wraps1 env (Sobol s) = (NSobolDimensions env \<le> sob_dimension s)"
| "wraps1 env _ = False"

fun wraps2 :: "Env \<Rightarrow> Sampler \<Rightarrow> bool" where
  "wraps2 env (Halton s) = (h_dimension s \<noteq> 0 \<and> PrimeTableSize env \<le> h_dimension s + 1)"
| "wraps2 env (Sobol s) = (NSobolDimensions env \<le> sob_dimension s + 1)"
| "wraps2 env _ = False"

fun advanced :: "Sampler \<Rightarrow> int \<Rightarrow> int \<Rightarrow> int" where
  "advanced (Random s) c n = (c + n) mod 2 ^ 64"
| "advanced _ c n = c + n"






subsection \<open>The Halton index\<close>

text \<open>
  What the construction of a HaltonSampler establishes, as far as the index
  computation needs it: positive base scales and non-negative multiplicative inverses,
  none above \<open>2 ^ 15\<close> (the constructor bounds the scales by the 128-pixel tile, so by
  128 and 243), and inverse radical inverses within the same bound for the two
  exponents in use. \<open>Halton_stride\<close> is \<^verbatim>\<open>baseScales[0] * baseScales[1]\<close>, and
  \<open>Halton_offset\<close> the index that \<^verbatim>\<open>StartPixelSample\<close> establishes for sample 0 of a
  pixel.
\<close>

definition Halton_wf :: "Env \<Rightarrow> HaltonSampler \<Rightarrow> bool" where
  "Halton_wf env s \<longleftrightarrow>
     0 < fst (baseScales s) \<and> fst (baseScales s) \<le> 2 ^ 15
     \<and> 0 < snd (baseScales s) \<and> snd (baseScales s) \<le> 2 ^ 15
     \<and> 0 \<le> fst (multInverse s) \<and> fst (multInverse s) \<le> 2 ^ 15
     \<and> 0 \<le> snd (multInverse s) \<and> snd (multInverse s) \<le> 2 ^ 15
     \<and> (\<forall>a. uint (InverseRadicalInverse env a 2 (fst (baseExponents s))) \<le> 2 ^ 15)
     \<and> (\<forall>a. uint (InverseRadicalInverse env a 3 (snd (baseExponents s))) \<le> 2 ^ 15)"

definition Halton_stride :: "HaltonSampler \<Rightarrow> int" where
  "Halton_stride s = fst (baseScales s) * snd (baseScales s)"

definition Halton_offset :: "Env \<Rightarrow> HaltonSampler \<Rightarrow> Point2i \<Rightarrow> int" where
  "Halton_offset env s p = haltonIndex (Halton_StartPixelSample env s p 0 0)"

subsection \<open>Samples of the dimensions from 2 on\<close>

text \<open>
  \<open>Halton_sample_at env s d\<close> is the scrambled radical inverse that the Halton sampler
  returns for dimension \<open>d\<close>; the Sobol' sampler's is \<open>Sobol_SampleDimension\<close>.
  \<open>dims_from_2 bound f smp\<close> holds when the returned sample \<open>smp\<close> is the sample \<open>f\<close> of
  a dimension from 2 up to the table bound (for a pair: of two adjacent such
  dimensions).
\<close>

definition Halton_sample_at :: "Env \<Rightarrow> HaltonSampler \<Rightarrow> int \<Rightarrow> Float" where
  "Halton_sample_at env s d =
     ScrambledRadicalInverse env d (word_of_int (haltonIndex s)) (digitPermutations s ! nat d)"


subsection \<open>The first pair of a pixel sample\<close>

text \<open>
  \<open>first_Get2D env s pixel k\<close> is the pair that the first \<^verbatim>\<open>Get2D\<close> call returns after
  \<^verbatim>\<open>StartPixelSample(pixel, k, 0)\<close>. \<open>cell_centre x y\<close> is the centre of cell \<open>(x, y)\<close>
  of the 4 by 4 grid over the unit square. \<open>exact_on_eighths\<close> says that the rounding
  of \<^verbatim>\<open>Float\<close> leaves the multiples of 1/8 from 0 to 4 as they are, which every
  binary floating-point format with at least six significant bits does.
\<close>

definition first_Get2D :: "Env \<Rightarrow> Sampler \<Rightarrow> Point2i \<Rightarrow> int \<Rightarrow> error + Point2f" where
  "first_Get2D env s pixel k =
     (case Get2D env (StartPixelSample env s pixel k 0) of
        Inl e \<Rightarrow> Inl e
      | Inr (w, s') \<Rightarrow> Inr w)"

definition cell_centre :: "int \<Rightarrow> int \<Rightarrow> Point2f" where
  "cell_centre x y = ((of_int x + 1 / 2) / 4, (of_int y + 1 / 2) / 4)"

definition exact_on_eighths :: "Env \<Rightarrow> bool" where
  "exact_on_eighths env \<longleftrightarrow> (\<forall>m\<in>{0..32::int}. fl env (of_int m / 8) = of_int m / 8)"

section \<open>Example objects\<close>

text \<open>
  A small environment and some sampler objects on which the theorems below are
  instantiated. The environment rounds exactly and uses simple stand-ins for the
  tables and hash functions.
\<close>

definition env_example :: Env where
  "env_example =
     \<lparr>fl = (\<lambda>q. q),
      OneMinusEpsilon = 16777215 / 16777216,
      PrimeTableSize = 1000,
      NSobolDimensions = 1024,
      nPMJ02bnSets = 5,
      Options_seed = 0,
      PBRT_IS_GPU_CODE = False,
      MixBits = (\<lambda>v. v XOR drop_bit 31 v),
      PermutationElement = (\<lambda>i l p. (uint i + uint p) mod uint l),
      InverseRadicalInverse = (\<lambda>a b n. word_of_int (uint a mod b ^ nat n)),
      RadicalInverse = (\<lambda>b a. of_int (uint a mod 8) / 8),
      ScrambledRadicalInverse = (\<lambda>b a perm. of_int ((uint a + b) mod 8) / 8),
      SobolSample = (\<lambda>a d r. of_int ((a + d) mod 16) / 16),
      SobolIntervalToIndex = (\<lambda>m frame p. frame),
      Log2Int = (\<lambda>v. 0),
      BlueNoise = (\<lambda>d p. of_int ((d + fst p + snd p) mod 4) / 4),
      GetPMJ02BNSample = (\<lambda>i j. (of_int (j mod 4) / 4, of_int (i mod 4) / 4)),
      rng_stream = (\<lambda>sq pos. of_int (uint (sq + pos) mod 1024) / 1024),
      mlt_mutation = (\<lambda>r large sg lastLarge cur v lastMod. ((v + 3 / 8) / 2, RNG_Advance r 1))\<rparr>"

text \<open>
  A Halton sampler for a 2 by 3 pixel image whose cursor stands at the end of the
  prime table, a Sobol' sampler one before the end of its table, and samplers of the
  other kinds.
\<close>

definition halton_example :: HaltonSampler where
  "halton_example =
     \<lparr>h_samplesPerPixel = 4, digitPermutations = replicate 1000 [0, 1],
      baseScales = (2, 3), baseExponents = (1, 1), multInverse = (1, 2),
      haltonIndex = 0, h_dimension = 1000\<rparr>"

text \<open>
  A Halton sampler for an image of at least 128 by 128 pixels, where the base scales are
  \<open>2\<^sup>7\<close> and \<open>3\<^sup>5\<close>, with 70000 samples per pixel.
\<close>

definition halton_large :: HaltonSampler where
  "halton_large =
     \<lparr>h_samplesPerPixel = 70000, digitPermutations = replicate 1000 [0, 1],
      baseScales = (128, 243), baseExponents = (7, 5), multInverse = (59, 131),
      haltonIndex = 0, h_dimension = 0\<rparr>"


definition stratified_example :: StratifiedSampler where
  "stratified_example =
     \<lparr>xPixelSamples = 4, yPixelSamples = 4, st_seed = 3, jitter = False,
      st_rng = \<lparr>rng_sequence = 0, rng_position = 0\<rparr>,
      st_pixel = (0, 0), st_sampleIndex = 0, st_dimension = 0\<rparr>"

definition stratified_clone :: StratifiedSampler where
  "stratified_clone =
     stratified_example
       \<lparr>st_rng := \<lparr>rng_sequence = 5, rng_position = 9\<rparr>,
        st_pixel := (1, 1), st_sampleIndex := 2, st_dimension := 7\<rparr>"

definition random_example :: RandomSampler where
  "random_example =
     \<lparr>r_samplesPerPixel = 16, r_seed = 1, r_rng = \<lparr>rng_sequence = 0, rng_position = 41\<rparr>\<rparr>"

text \<open>
  The environment of the default build: \<^verbatim>\<open>Float\<close> is binary32. Its random stream
  stands at a place where the generator draws the largest \<^verbatim>\<open>Float\<close> below 1,
  \<open>1 - 2\<^sup>-\<^sup>2\<^sup>4\<close>, which is \<^verbatim>\<open>OneMinusEpsilon\<close>. With it, a jittering stratified
  sampler of 2 by 1 strata.
\<close>

definition env_binary32 :: Env where
  "env_binary32 = env_example\<lparr>fl := binary32, rng_stream := (\<lambda>sq pos. 1 - 1 / 2 ^ 24)\<rparr>"

definition stratified_2x1 :: StratifiedSampler where
  "stratified_2x1 =
     \<lparr>xPixelSamples = 2, yPixelSamples = 1, st_seed = 0, jitter = True,
      st_rng = \<lparr>rng_sequence = 0, rng_position = 0\<rparr>,
      st_pixel = (0, 0), st_sampleIndex = 0, st_dimension = 0\<rparr>"


text \<open>A sampler with three streams, in the middle of an iteration.\<close>

definition mlt_example :: MLTSampler where
  "mlt_example =
     \<lparr>mutationsPerPixel = 100,
      mlt_rng = \<lparr>rng_sequence = 0, rng_position = 0\<rparr>,
      sigma = 1 / 100, largeStepProbability = 3 / 10, streamCount = 3,
      X = [], currentIteration = 0, largeStep = True, lastLargeStepIteration = 0,
      streamIndex = 2, mlt_sampleIndex = 5\<rparr>"

text \<open>A sampler five iterations into its chain, with two primary samples.\<close>

definition mlt_chain :: MLTSampler where
  "mlt_chain =
     \<lparr>mutationsPerPixel = 100,
      mlt_rng = \<lparr>rng_sequence = 7, rng_position = 40\<rparr>,
      sigma = 1 / 100, largeStepProbability = 3 / 10, streamCount = 3,
      X = [\<lparr>value = 1 / 4, lastModificationIteration = 5, valueBackup = 1 / 8, modifyBackup = 4\<rparr>,
           \<lparr>value = 3 / 4, lastModificationIteration = 2, valueBackup = 0, modifyBackup = 0\<rparr>],
      currentIteration = 5, largeStep = False, lastLargeStepIteration = 1,
      streamIndex = 0, mlt_sampleIndex = 2\<rparr>"

text \<open>A debug sampler replaying three recorded values.\<close>

definition debug_example :: DebugMLTSampler where
  "debug_example =
     \<lparr>mutationsPerPixel = 1,
      mlt_rng = \<lparr>rng_sequence = 0, rng_position = 0\<rparr>,
      sigma = 1 / 2, largeStepProbability = 1 / 2, streamCount = 3,
      X = [], currentIteration = 0, largeStep = True, lastLargeStepIteration = 0,
      streamIndex = 1, mlt_sampleIndex = 0,
      dbg_u = [1 / 4, 1 / 2, 3 / 4]\<rparr>"

section \<open>Stream indexing of the MLTSampler\<close>

lemma s32_eq_iff: "s32 a = s32 b \<longleftrightarrow> a mod 2 ^ 32 = b mod 2 ^ 32"
  by (simp add: s32_def signed_take_bit_eq_iff_take_bit_eq take_bit_eq_mod)

lemma s32_mod: "s32 a mod 2 ^ 32 = a mod 2 ^ 32"
  using s32_eq_iff [of "s32 a" a] by (simp add: s32_def)

lemma s32_in_range: "- (2 ^ 31) \<le> x \<Longrightarrow> x < 2 ^ 31 \<Longrightarrow> s32 x = x"
  by (simp add: s32_def signed_take_bit_int_eq_self)

lemma s32_add_s32: "s32 (a + s32 b) = s32 (a + b)"
proof -
  have "(a + s32 b) mod 2 ^ 32 = (a + b) mod 2 ^ 32"
    by (rule mod_add_cong [OF refl s32_mod])
  then show ?thesis by (simp only: s32_eq_iff)
qed

lemma s32_count: "s32 (a + c * (s32 b + d)) = s32 (a + c * (b + d))"
proof -
  have "(s32 b + d) mod 2 ^ 32 = (b + d) mod 2 ^ 32"
    by (rule mod_add_cong [OF s32_mod refl])
  then have "(c * (s32 b + d)) mod 2 ^ 32 = (c * (b + d)) mod 2 ^ 32"
    by (rule mod_mult_cong [OF refl])
  then have "(a + c * (s32 b + d)) mod 2 ^ 32 = (a + c * (b + d)) mod 2 ^ 32"
    by (rule mod_add_cong [OF refl])
  then show ?thesis by (simp only: s32_eq_iff)
qed

text \<open>
  What the calls return on the machine, whatever the range: the \<open>j\<close>-th index is the
  two's complement value of \<open>streamIndex + streamCount * (sampleIndex + j)\<close>.
\<close>

lemma GetNextIndex_n_indices:
  "fst (GetNextIndex_n n m) =
     map (\<lambda>j. s32 (streamIndex m + streamCount m * (mlt_sampleIndex m + int j))) [0..<n]"
proof (induction n arbitrary: m)
  case 0
  show ?case by simp
next
  case (Suc n)
  let ?m' = "m\<lparr>mlt_sampleIndex := s32 (mlt_sampleIndex m + 1)\<rparr>"
  let ?f = "\<lambda>j. s32 (streamIndex m + streamCount m * (mlt_sampleIndex m + int j))"
  have "fst (GetNextIndex_n (Suc n) m) =
          s32 (streamIndex m + s32 (streamCount m * mlt_sampleIndex m)) # fst (GetNextIndex_n n ?m')"
    by (simp add: GetNextIndex_def split: prod.splits)
  also have "s32 (streamIndex m + s32 (streamCount m * mlt_sampleIndex m)) = ?f 0"
    by (simp add: s32_add_s32)
  also have "fst (GetNextIndex_n n ?m') = map (\<lambda>j. ?f (Suc j)) [0..<n]"
  proof -
    have "\<And>j. s32 (streamIndex m + streamCount m * (s32 (mlt_sampleIndex m + 1) + int j))
             = ?f (Suc j)"
      by (simp only: s32_count) (simp add: algebra_simps)
    then show ?thesis by (simp add: Suc.IH)
  qed
  also have "?f 0 # map (\<lambda>j. ?f (Suc j)) [0..<n] = map ?f (0 # map Suc [0..<n])"
    by (simp add: comp_def)
  also have "0 # map Suc [0..<n] = [0..<Suc n]"
    by (simp add: upt_conv_Cons map_Suc_upt del: upt_Suc)
  finally show ?case .
qed

lemma GetNextIndex_n_StartStream:
  "fst (GetNextIndex_n n (StartStream m s)) = map (\<lambda>j. s32 (s + streamCount m * int j)) [0..<n]"
  by (simp add: GetNextIndex_n_indices StartStream_def)

lemma GetNextIndex_n_in_range:
  assumes "\<forall>n<N. - (2 ^ 31) \<le> s + streamCount m * int n \<and> s + streamCount m * int n < 2 ^ 31"
  shows "fst (GetNextIndex_n N (StartStream m s)) = map (\<lambda>n. s + streamCount m * int n) [0..<N]"
  unfolding GetNextIndex_n_StartStream using assms by (simp add: s32_in_range)

lemma GetNextIndex_n_nth:
  assumes "n < N"
    and "- (2 ^ 31) \<le> s + streamCount m * int n" "s + streamCount m * int n < 2 ^ 31"
  shows "fst (GetNextIndex_n N (StartStream m s)) ! n = s + streamCount m * int n"
  unfolding GetNextIndex_n_StartStream using assms by (simp add: s32_in_range)

lemma three_streams_in_range:
  assumes "streamCount m = 3" "3 * int N \<le> 2 ^ 31" "s \<in> {0, 1, 2}"
  shows "fst (GetNextIndex_n N (StartStream m s)) = map (\<lambda>n. s + 3 * int n) [0..<N]"
proof -
  have "\<forall>n<N. - (2 ^ 31) \<le> s + streamCount m * int n \<and> s + streamCount m * int n < 2 ^ 31"
    using assms by auto
  from GetNextIndex_n_in_range [OF this] show ?thesis by (simp add: assms(1))
qed

text \<open>
  Claim C4, as amended. \<^verbatim>\<open>GetNextIndex\<close> computes and returns an \<^verbatim>\<open>int\<close>. After
  \<^verbatim>\<open>StartStream(s)\<close>, whatever the sampler did before, the \<open>n\<close>-th call of
  \<^verbatim>\<open>GetNextIndex\<close> (counted from 0) returns \<open>s + streamCount * n\<close> as long as these
  values lie in the range of \<^verbatim>\<open>int\<close>. With three streams and at most \<open>2\<^sup>3\<^sup>1 / 3\<close>
  calls in each, every index produced in stream \<open>s \<in> {0, 1, 2}\<close> is congruent to \<open>s\<close>
  modulo 3, and the index sets that the same number of calls produce in two different
  streams are disjoint.
\<close>

theorem MLT_stream_indices_in_int:
  "(n < N \<and> - (2 ^ 31) \<le> s + streamCount m * int n \<and> s + streamCount m * int n < 2 ^ 31 \<longrightarrow>
      fst (GetNextIndex_n N (StartStream m s)) ! n = s + streamCount m * int n)
   \<and> (streamCount m = 3 \<and> 3 * int N \<le> 2 ^ 31 \<longrightarrow>
        (\<forall>s\<in>{0, 1, 2}. \<forall>i\<in>set (fst (GetNextIndex_n N (StartStream m s))). i mod 3 = s)
      \<and> (\<forall>s1\<in>{0, 1, 2}. \<forall>s2\<in>{0, 1, 2}. s1 \<noteq> s2 \<longrightarrow>
            set (fst (GetNextIndex_n N (StartStream m s1)))
              \<inter> set (fst (GetNextIndex_n N (StartStream m s2))) = {}))"
proof (intro conjI impI)
  assume "n < N \<and> - (2 ^ 31) \<le> s + streamCount m * int n \<and> s + streamCount m * int n < 2 ^ 31"
  then show "fst (GetNextIndex_n N (StartStream m s)) ! n = s + streamCount m * int n"
    by (intro GetNextIndex_n_nth) simp_all
next
  assume three: "streamCount m = 3 \<and> 3 * int N \<le> 2 ^ 31"
  show "\<forall>s\<in>{0, 1, 2}. \<forall>i\<in>set (fst (GetNextIndex_n N (StartStream m s))). i mod 3 = s"
  proof (intro ballI)
    fix s i :: int
    assume s: "s \<in> {0, 1, 2}" and i: "i \<in> set (fst (GetNextIndex_n N (StartStream m s)))"
    from three s have "fst (GetNextIndex_n N (StartStream m s)) = map (\<lambda>n. s + 3 * int n) [0..<N]"
      by (intro three_streams_in_range) simp_all
    with i s show "i mod 3 = s" by auto
  qed
next
  assume three: "streamCount m = 3 \<and> 3 * int N \<le> 2 ^ 31"
  show "\<forall>s1\<in>{0, 1, 2}. \<forall>s2\<in>{0, 1, 2}. s1 \<noteq> s2 \<longrightarrow>
          set (fst (GetNextIndex_n N (StartStream m s1)))
            \<inter> set (fst (GetNextIndex_n N (StartStream m s2))) = {}"
  proof (intro ballI impI)
    fix s1 s2 :: int
    assume s1: "s1 \<in> {0, 1, 2}" and s2: "s2 \<in> {0, 1, 2}" and ne: "s1 \<noteq> s2"
    from three s1 have e1: "fst (GetNextIndex_n N (StartStream m s1)) = map (\<lambda>n. s1 + 3 * int n) [0..<N]"
      by (intro three_streams_in_range) simp_all
    from three s2 have e2: "fst (GetNextIndex_n N (StartStream m s2)) = map (\<lambda>n. s2 + 3 * int n) [0..<N]"
      by (intro three_streams_in_range) simp_all
    have "\<And>a b. s1 + 3 * int a \<noteq> s2 + 3 * int b"
    proof
      fix a b
      assume "s1 + 3 * int a = s2 + 3 * int b"
      then have "(s1 + 3 * int a) mod 3 = (s2 + 3 * int b) mod 3" by simp
      then have "s1 mod 3 = s2 mod 3" by simp
      with s1 s2 ne show False by auto
    qed
    then show "set (fst (GetNextIndex_n N (StartStream m s1)))
            \<inter> set (fst (GetNextIndex_n N (StartStream m s2))) = {}"
      unfolding e1 e2 by auto
  qed
qed

theorem MLT_stream_indices_in_int_witness:
  "streamCount mlt_example = 3
   \<and> fst (GetNextIndex_n 3 (StartStream mlt_example 1)) ! 2 = 7
   \<and> fst (GetNextIndex_n 3 (StartStream mlt_example 1)) = [1, 4, 7]
   \<and> fst (GetNextIndex_n 3 (StartStream mlt_example 2)) = [2, 5, 8]
   \<and> set (fst (GetNextIndex_n 3 (StartStream mlt_example 1)))
        \<inter> set (fst (GetNextIndex_n 3 (StartStream mlt_example 2))) = {}"
proof -
  have c: "streamCount mlt_example = 3" by (simp add: mlt_example_def)
  have b: "3 * int 3 \<le> 2 ^ 31" by simp
  from three_streams_in_range [OF c b, of 1]
  have e1: "fst (GetNextIndex_n 3 (StartStream mlt_example 1)) = [1, 4, 7]"
    by (simp add: numeral_3_eq_3)
  from three_streams_in_range [OF c b, of 2]
  have e2: "fst (GetNextIndex_n 3 (StartStream mlt_example 2)) = [2, 5, 8]"
    by (simp add: numeral_3_eq_3)
  from MLT_stream_indices_in_int [of 2 3 1 mlt_example] c
  have "fst (GetNextIndex_n 3 (StartStream mlt_example 1)) ! 2 = 7
        \<and> set (fst (GetNextIndex_n 3 (StartStream mlt_example 1)))
             \<inter> set (fst (GetNextIndex_n 3 (StartStream mlt_example 2))) = {}"
    by simp
  with c e1 e2 show ?thesis by simp
qed

text \<open>
  The claim as stated, for every \<open>n\<close>, fails: in stream 1 of three, the call number
  715827883 should return \<open>2147483650\<close>, which no \<^verbatim>\<open>int\<close> holds. The sum comes out
  as \<open>-2147483646\<close>, which is not congruent to 1 modulo 3.
\<close>

theorem MLT_stream_index_overflow:
  "streamCount mlt_example = 3
   \<and> 1 + streamCount mlt_example * 715827883 = 2147483650
   \<and> fst (GetNextIndex_n 715827884 (StartStream mlt_example 1)) ! 715827883 = - 2147483646
   \<and> fst (GetNextIndex_n 715827884 (StartStream mlt_example 1)) ! 715827883 mod 3 = 0"
proof -
  have c: "streamCount mlt_example = 3" by (simp add: mlt_example_def)
  have w: "s32 (1 + 3 * int 715827883) = - 2147483646"
    by (simp add: s32_def signed_take_bit_eq_take_bit_shift take_bit_eq_mod)
  have "fst (GetNextIndex_n 715827884 (StartStream mlt_example 1)) ! 715827883
          = s32 (1 + 3 * int 715827883)"
    unfolding GetNextIndex_n_StartStream c by (simp del: upt_rec_numeral)
  then show ?thesis using c w by simp
qed

section \<open>Rejecting a proposal of the MLTSampler\<close>

lemma StartIteration_simps:
  "X (StartIteration env m) = X m"
  "currentIteration (StartIteration env m) = currentIteration m + 1"
  by (simp_all add: StartIteration_def split: prod.splits)

lemma EnsureReady_currentIteration:
  "currentIteration (EnsureReady env m i) = currentIteration m"
  by (simp add: EnsureReady_def Let_def split: prod.splits)

lemma length_grown: "length (grown xs i) = max (length xs) (nat (i + 1))"
  by (simp add: grown_def)

lemma nth_grown: "j < length (grown xs i) \<Longrightarrow> grown xs i ! j = padded xs j"
  by (simp add: grown_def padded_def nth_append)

lemma EnsureReady_X:
  "\<exists>v. X (EnsureReady env m i) =
     (grown (X m) i) [nat i := (Backup (grown (X m) i ! nat i))
          \<lparr>value := v, lastModificationIteration := currentIteration m\<rparr>]"
proof -
  obtain v r where mu: "mlt_mutation env (mlt_rng m) (largeStep m) (sigma m) (lastLargeStepIteration m)
                (currentIteration m) (value (Backup (grown (X m) i ! nat i)))
                (lastModificationIteration (Backup (grown (X m) i ! nat i))) = (v, r)"
    by (cases "mlt_mutation env (mlt_rng m) (largeStep m) (sigma m) (lastLargeStepIteration m)
                (currentIteration m) (value (Backup (grown (X m) i ! nat i)))
                (lastModificationIteration (Backup (grown (X m) i ! nat i)))") 
  have "X (EnsureReady env m i) =
     (grown (X m) i) [nat i := (Backup (grown (X m) i ! nat i))
          \<lparr>value := v, lastModificationIteration := currentIteration m\<rparr>]"
    using mu by (simp add: EnsureReady_def Let_def grown_def)
  then show ?thesis ..
qed

lemma EnsureReady_length:
  "length (X (EnsureReady env m i)) = max (length (X m)) (nat (i + 1))"
  using EnsureReady_X [of env m i] by (auto simp: length_grown)

lemma EnsureReady_other:
  assumes "j \<noteq> nat i" "j < length (X (EnsureReady env m i))"
  shows "X (EnsureReady env m i) ! j = padded (X m) j"
proof -
  obtain v where eq: "X (EnsureReady env m i) =
     (grown (X m) i) [nat i := (Backup (grown (X m) i ! nat i))
          \<lparr>value := v, lastModificationIteration := currentIteration m\<rparr>]"
    using EnsureReady_X by blast
  from assms(2) have "j < length (grown (X m) i)" by (simp add: eq)
  with assms(1) show ?thesis by (simp add: eq nth_grown)
qed

lemma EnsureReady_touched:
  assumes "0 \<le> i"
  shows "lastModificationIteration (X (EnsureReady env m i) ! nat i) = currentIteration m"
    and "valueBackup (X (EnsureReady env m i) ! nat i) = value (padded (X m) (nat i))"
    and "modifyBackup (X (EnsureReady env m i) ! nat i) = lastModificationIteration (padded (X m) (nat i))"
proof -
  obtain v where eq: "X (EnsureReady env m i) =
     (grown (X m) i) [nat i := (Backup (grown (X m) i ! nat i))
          \<lparr>value := v, lastModificationIteration := currentIteration m\<rparr>]"
    using EnsureReady_X by blast
  from assms have lt: "nat i < length (grown (X m) i)" by (simp add: length_grown)
  show "lastModificationIteration (X (EnsureReady env m i) ! nat i) = currentIteration m"
    using lt by (simp add: eq)
  show "valueBackup (X (EnsureReady env m i) ! nat i) = value (padded (X m) (nat i))"
    using lt by (simp add: eq Backup_def nth_grown)
  show "modifyBackup (X (EnsureReady env m i) ! nat i) = lastModificationIteration (padded (X m) (nat i))"
    using lt by (simp add: eq Backup_def nth_grown)
qed

lemma mid_invariant:
  assumes "distinct idxs" "\<forall>i\<in>set idxs. 0 \<le> i"
  shows "currentIteration (mid env m idxs) = currentIteration m + 1
       \<and> length (X m) \<le> length (X (mid env m idxs))
       \<and> (\<forall>i\<in>set idxs. nat i < length (X (mid env m idxs)))
       \<and> (\<forall>j < length (X (mid env m idxs)).
            if int j \<in> set idxs
            then lastModificationIteration (X (mid env m idxs) ! j) = currentIteration m + 1
               \<and> valueBackup (X (mid env m idxs) ! j) = value (padded (X m) j)
               \<and> modifyBackup (X (mid env m idxs) ! j) = lastModificationIteration (padded (X m) j)
            else X (mid env m idxs) ! j = padded (X m) j)"
  using assms
proof (induction idxs rule: rev_induct)
  case Nil
  show ?case by (simp add: mid_def StartIteration_simps padded_def)
next
  case (snoc i idxs)
  let ?m' = "mid env m idxs"
  let ?m'' = "EnsureReady env ?m' i"
  have step: "mid env m (idxs @ [i]) = ?m''" by (simp add: mid_def)
  from snoc.prems have d: "distinct idxs" and nn: "\<forall>i\<in>set idxs. 0 \<le> i"
    and fresh: "i \<notin> set idxs" and i0: "0 \<le> i" by simp_all
  note IH = snoc.IH [OF d nn]
  from IH have cur: "currentIteration ?m' = currentIteration m + 1"
    and len: "length (X m) \<le> length (X ?m')"
    and inl: "\<forall>i\<in>set idxs. nat i < length (X ?m')"
    and ent: "\<forall>j < length (X ?m').
            if int j \<in> set idxs
            then lastModificationIteration (X ?m' ! j) = currentIteration m + 1
               \<and> valueBackup (X ?m' ! j) = value (padded (X m) j)
               \<and> modifyBackup (X ?m' ! j) = lastModificationIteration (padded (X m) j)
            else X ?m' ! j = padded (X m) j"
    by blast+
  have len'': "length (X ?m'') = max (length (X ?m')) (nat (i + 1))"
    by (rule EnsureReady_length)
  have pad: "padded (X ?m') j = padded (X m) j" if "int j \<notin> set idxs" for j
  proof (cases "j < length (X ?m')")
    case True
    with ent that have "X ?m' ! j = padded (X m) j" by auto
    with True show ?thesis by (simp add: padded_def)
  next
    case False
    with len have "\<not> j < length (X m)" by simp
    with False show ?thesis by (simp add: padded_def)
  qed
  have c1: "currentIteration ?m'' = currentIteration m + 1"
    by (simp add: EnsureReady_currentIteration cur)
  have c2: "length (X m) \<le> length (X ?m'')"
    using len len'' by simp
  have c3: "\<forall>k\<in>set (idxs @ [i]). nat k < length (X ?m'')"
    using inl i0 len'' by auto
  have c4: "\<forall>j < length (X ?m'').
            if int j \<in> set (idxs @ [i])
            then lastModificationIteration (X ?m'' ! j) = currentIteration m + 1
               \<and> valueBackup (X ?m'' ! j) = value (padded (X m) j)
               \<and> modifyBackup (X ?m'' ! j) = lastModificationIteration (padded (X m) j)
            else X ?m'' ! j = padded (X m) j"
  proof (intro allI impI)
    fix j assume j: "j < length (X ?m'')"
    show "if int j \<in> set (idxs @ [i])
            then lastModificationIteration (X ?m'' ! j) = currentIteration m + 1
               \<and> valueBackup (X ?m'' ! j) = value (padded (X m) j)
               \<and> modifyBackup (X ?m'' ! j) = lastModificationIteration (padded (X m) j)
            else X ?m'' ! j = padded (X m) j"
    proof (cases "j = nat i")
      case True
      then have ji: "int j = i" using i0 by simp
      have nf: "int j \<notin> set idxs" using fresh ji by simp
      show ?thesis
        using EnsureReady_touched [OF i0, of env ?m'] pad [OF nf] True ji cur
        by simp
    next
      case False
      then have ne: "int j \<noteq> i" using i0 by auto
      have other: "X ?m'' ! j = padded (X ?m') j"
        using EnsureReady_other [OF False j] .
      show ?thesis
      proof (cases "int j \<in> set idxs")
        case True
        with inl have "j < length (X ?m')" by fastforce
        with ent True other show ?thesis by (simp add: padded_def)
      next
        case F2: False
        with other pad ne show ?thesis by simp
      qed
    qed
  qed
  show ?case unfolding step using c1 c2 c3 c4 by blast
qed


lemma Reject_simps:
  "currentIteration (Reject m) = currentIteration m - 1"
  "X (Reject m) = map (\<lambda>X_i. if lastModificationIteration X_i = currentIteration m
                         then Restore X_i else X_i) (X m)"
  by (simp_all add: Reject_def)

lemma visible_Restore: "visible (Restore x) = (valueBackup x, modifyBackup x)"
  by (simp add: visible_def Restore_def)

lemma visible_init: "visible PrimarySample_init = (0, 0)" "visible (Restore PrimarySample_init) = (0, 0)"
  by (simp_all add: visible_def Restore_def PrimarySample_init_def)

text \<open>
  Claim C5. From a state in which no primary sample is marked as modified later than
  the current iteration, \<^verbatim>\<open>StartIteration\<close>, then \<^verbatim>\<open>EnsureReady\<close> on any set of
  indices (each index once), then \<^verbatim>\<open>Reject\<close> leaves the iteration counter and the
  value and modification iteration of every primary sample as they were before
  \<^verbatim>\<open>StartIteration\<close>; the samples the vector gained in between hold value 0 and
  modification iteration 0, the state of a sample that was never touched.
\<close>

theorem MLT_Reject_restores:
  assumes inv: "\<forall>x\<in>set (X m). lastModificationIteration x \<le> currentIteration m"
    and d: "distinct idxs" and nn: "\<forall>i\<in>set idxs. 0 \<le> i"
  shows "currentIteration (rejected_iteration env m idxs) = currentIteration m
       \<and> map visible (X (rejected_iteration env m idxs)) =
           map visible (X m)
             @ replicate (length (X (rejected_iteration env m idxs)) - length (X m)) (0, 0)"
proof -
  let ?m' = "mid env m idxs"
  let ?c = "currentIteration m"
  have rej: "rejected_iteration env m idxs = Reject ?m'"
    by (simp add: rejected_iteration_def mid_def)
  note I = mid_invariant [OF d nn, of env m]
  from I have cur: "currentIteration ?m' = ?c + 1"
    and len: "length (X m) \<le> length (X ?m')"
    and ent: "\<forall>j < length (X ?m').
            if int j \<in> set idxs
            then lastModificationIteration (X ?m' ! j) = ?c + 1
               \<and> valueBackup (X ?m' ! j) = value (padded (X m) j)
               \<and> modifyBackup (X ?m' ! j) = lastModificationIteration (padded (X m) j)
            else X ?m' ! j = padded (X m) j"
    by blast+
  have vis: "visible (if lastModificationIteration (X ?m' ! j) = ?c + 1
                      then Restore (X ?m' ! j) else X ?m' ! j) = visible (padded (X m) j)"
    if j: "j < length (X ?m')" for j
  proof (cases "int j \<in> set idxs")
    case True
    with ent j show ?thesis by (simp add: visible_Restore) (simp add: visible_def)
  next
    case False
    with ent j have eq: "X ?m' ! j = padded (X m) j" by simp
    show ?thesis
    proof (cases "j < length (X m)")
      case True
      then have "X m ! j \<in> set (X m)" by simp
      with inv have "lastModificationIteration (X m ! j) \<le> ?c" by blast
      with True show ?thesis by (simp add: eq padded_def)
    next
      case False
      then show ?thesis by (simp add: eq padded_def visible_init)
    qed
  qed
  have lenr: "length (X (Reject ?m')) = length (X ?m')"
    by (simp add: Reject_simps)
  have "map visible (X (Reject ?m')) =
          map visible (X m) @ replicate (length (X ?m') - length (X m)) (0, 0)"
  proof (rule nth_equalityI)
    show "length (map visible (X (Reject ?m'))) =
          length (map visible (X m) @ replicate (length (X ?m') - length (X m)) (0, 0))"
      using len by (simp add: lenr)
  next
    fix j assume "j < length (map visible (X (Reject ?m')))"
    then have j: "j < length (X ?m')" by (simp add: lenr)
    have "map visible (X (Reject ?m')) ! j = visible (padded (X m) j)"
      using j vis [OF j] by (simp add: Reject_simps cur)
    also have "\<dots> = (map visible (X m) @ replicate (length (X ?m') - length (X m)) (0, 0)) ! j"
      using j by (simp add: nth_append padded_def visible_init)
    finally show "map visible (X (Reject ?m')) ! j =
        (map visible (X m) @ replicate (length (X ?m') - length (X m)) (0, 0)) ! j" .
  qed
  moreover have "currentIteration (Reject ?m') = ?c"
    by (simp add: Reject_simps cur)
  ultimately show ?thesis
    by (simp add: rej lenr)
qed

theorem MLT_Reject_restores_witness:
  "map lastModificationIteration (X mlt_chain) = [5, 2]
   \<and> currentIteration mlt_chain = 5
   \<and> distinct [3, 0 :: int]
   \<and> currentIteration (rejected_iteration env_example mlt_chain [3, 0]) = 5
   \<and> map visible (X (rejected_iteration env_example mlt_chain [3, 0])) =
       [(1 / 4, 5), (3 / 4, 2), (0, 0), (0, 0)]"
proof -
  have h: "\<forall>x\<in>set (X mlt_chain). lastModificationIteration x \<le> currentIteration mlt_chain"
    by (simp add: mlt_chain_def)
  have len: "length (X (rejected_iteration env_example mlt_chain [3, 0])) = 4"
    by (simp add: rejected_iteration_def Reject_def EnsureReady_def StartIteration_def
        RNG_Uniform_def Let_def mlt_chain_def env_example_def split: prod.splits)
  show ?thesis
    using h len MLT_Reject_restores [OF h, of "[3, 0]" env_example]
    by (simp add: mlt_chain_def visible_def numeral_2_eq_2)
qed

section \<open>The debug sampler\<close>

text \<open>
  Claim C9, as amended. A \<^verbatim>\<open>Get1D\<close> call of the debug sampler whose next global index
  is at or beyond the length of the recorded sequence fails its check. For an index
  within the recorded sequence the call returns the recorded value at that index in host
  code; compiled as GPU code (\<^verbatim>\<open>PBRT_IS_GPU_CODE\<close>) it returns 0 instead.
\<close>

theorem DebugMLT_Get1D_checked_replay:
  "(int (length (dbg_u m)) \<le> fst (GetNextIndex m) \<longrightarrow> DebugMLT_Get1D env m = Inl CheckFailed)
   \<and> (0 \<le> fst (GetNextIndex m) \<and> fst (GetNextIndex m) < int (length (dbg_u m))
        \<and> \<not> PBRT_IS_GPU_CODE env \<longrightarrow>
        DebugMLT_Get1D env m = Inr (dbg_u m ! nat (fst (GetNextIndex m)), snd (GetNextIndex m)))
   \<and> (0 \<le> fst (GetNextIndex m) \<and> fst (GetNextIndex m) < int (length (dbg_u m))
        \<and> PBRT_IS_GPU_CODE env \<longrightarrow>
        DebugMLT_Get1D env m = Inr (0, snd (GetNextIndex m)))"
  by (simp add: DebugMLT_Get1D_def GetNextIndex_def)

theorem DebugMLT_Get1D_checked_replay_witness:
  "DebugMLT_Get1D env_example debug_example = Inr (1 / 2, debug_example\<lparr>mlt_sampleIndex := 1\<rparr>)
   \<and> DebugMLT_Get1D env_example (debug_example\<lparr>mlt_sampleIndex := 1\<rparr>) = Inl CheckFailed"
  using DebugMLT_Get1D_checked_replay [of debug_example env_example]
        DebugMLT_Get1D_checked_replay [of "debug_example\<lparr>mlt_sampleIndex := 1\<rparr>" env_example]
  by (simp add: debug_example_def env_example_def GetNextIndex_def s32_def)

text \<open>
  The claim as stated, without the restriction to host code, fails: in GPU code the
  call at index 1 of the recorded sequence does not return the recorded value.
\<close>

theorem DebugMLT_Get1D_gpu_counterexample:
  "fst (GetNextIndex debug_example) = 1
   \<and> 1 < length (dbg_u debug_example)
   \<and> DebugMLT_Get1D (env_example\<lparr>PBRT_IS_GPU_CODE := True\<rparr>) debug_example
       \<noteq> Inr (dbg_u debug_example ! 1, snd (GetNextIndex debug_example))"
  by (simp add: debug_example_def env_example_def GetNextIndex_def DebugMLT_Get1D_def s32_def)

section \<open>What one call does to the sampler\<close>

lemma Halton_Get1D_Inr:
  "Halton_Get1D env s = Inr (v, s') \<Longrightarrow>
     s' = s\<lparr>h_dimension := (if PrimeTableSize env \<le> h_dimension s then 2 else h_dimension s) + 1\<rparr>"
  by (simp add: Halton_Get1D_def Let_def split: sum.splits if_splits)

lemma Halton_Get2D_Inr:
  "Halton_Get2D env s = Inr (v, s') \<Longrightarrow>
     s' = s\<lparr>h_dimension :=
            (if h_dimension s \<noteq> 0 \<and> PrimeTableSize env \<le> h_dimension s + 1 then 2
             else h_dimension s) + 2\<rparr>"
  by (simp add: Halton_Get2D_def Let_def split: sum.splits if_splits)

lemma PaddedSobol_Get1D_Inr:
  "PaddedSobol_Get1D env s = Inr (v, s') \<Longrightarrow> s' = s\<lparr>ps_dimension := ps_dimension s + 1\<rparr>"
  by (simp add: PaddedSobol_Get1D_def Let_def split: sum.splits if_splits)

lemma PaddedSobol_Get2D_Inr:
  "PaddedSobol_Get2D env s = Inr (v, s') \<Longrightarrow> s' = s\<lparr>ps_dimension := ps_dimension s + 2\<rparr>"
  by (simp add: PaddedSobol_Get2D_def Let_def split: sum.splits if_splits)

lemma PMJ02BN_Get1D_Inr:
  "PMJ02BN_Get1D env s = Inr (v, s') \<Longrightarrow> s' = s\<lparr>pmj_dimension := pmj_dimension s + 1\<rparr>"
  by (simp add: PMJ02BN_Get1D_def Let_def split: sum.splits if_splits)

lemma PMJ02BN_Get2D_Inr:
  "PMJ02BN_Get2D env s = Inr (v, s') \<Longrightarrow> s' = s\<lparr>pmj_dimension := pmj_dimension s + 2\<rparr>"
  by (simp add: PMJ02BN_Get2D_def Let_def split: sum.splits if_splits)

lemma Random_Get1D_Inr:
  "Random_Get1D env s = Inr (v, s') \<Longrightarrow>
     s' = s\<lparr>r_rng := (r_rng s)\<lparr>rng_position := rng_position (r_rng s) + 1\<rparr>\<rparr>"
  by (auto simp add: Random_Get1D_def RNG_Uniform_def)

lemma Random_Get2D_Inr:
  "Random_Get2D env s = Inr (v, s') \<Longrightarrow>
     s' = s\<lparr>r_rng := (r_rng s)\<lparr>rng_position := rng_position (r_rng s) + 2\<rparr>\<rparr>"
  by (auto simp add: Random_Get2D_def RNG_Uniform_def)

lemma Sobol_Get1D_Inr:
  "Sobol_Get1D env s = Inr (v, s') \<Longrightarrow>
     s' = s\<lparr>sob_dimension :=
            (if NSobolDimensions env \<le> sob_dimension s then 2 else sob_dimension s) + 1\<rparr>"
  by (simp add: Sobol_Get1D_def Let_def split: if_splits)

lemma Sobol_Get2D_Inr:
  "Sobol_Get2D env s = Inr (v, s') \<Longrightarrow>
     s' = s\<lparr>sob_dimension :=
            (if NSobolDimensions env \<le> sob_dimension s + 1 then 2 else sob_dimension s) + 2\<rparr>"
  by (simp add: Sobol_Get2D_def Let_def split: if_splits)

lemma Stratified_Get1D_Inr:
  "Stratified_Get1D env s = Inr (v, s') \<Longrightarrow>
     \<exists>r. s' = s\<lparr>st_dimension := st_dimension s + 1, st_rng := r\<rparr>"
  by (auto simp add: Stratified_Get1D_def Let_def split: prod.splits)

lemma Stratified_Get2D_Inr:
  "Stratified_Get2D env s = Inr (v, s') \<Longrightarrow>
     \<exists>r. s' = s\<lparr>st_dimension := st_dimension s + 2, st_rng := r\<rparr>"
  by (auto simp add: Stratified_Get2D_def Let_def split: prod.splits)

lemma tagged_Inr: "tagged C r = Inr (v, t) \<Longrightarrow> \<exists>s'. r = Inr (v, s') \<and> t = C s'"
  by (auto simp: tagged_def split: sum.splits)

lemma Get1D_effect:
  assumes "Get1D env s = Inr (v, s')"
  shows "cursor s' = advanced s (if wraps1 env s then 2 else cursor s) 1 \<and> same_construction s s'"
proof (cases s)
  case (Halton x)
  with assms obtain x' where "Halton_Get1D env x = Inr (v, x')" "s' = Halton x'"
    by (auto dest: tagged_Inr)
  with Halton show ?thesis by (auto dest!: Halton_Get1D_Inr)
next
  case (PaddedSobol x)
  with assms obtain x' where "PaddedSobol_Get1D env x = Inr (v, x')" "s' = PaddedSobol x'"
    by (auto dest: tagged_Inr)
  with PaddedSobol show ?thesis by (auto dest!: PaddedSobol_Get1D_Inr)
next
  case (PMJ02BN x)
  with assms obtain x' where "PMJ02BN_Get1D env x = Inr (v, x')" "s' = PMJ02BN x'"
    by (auto dest: tagged_Inr)
  with PMJ02BN show ?thesis by (auto dest!: PMJ02BN_Get1D_Inr)
next
  case (Random x)
  with assms obtain x' where "Random_Get1D env x = Inr (v, x')" "s' = Random x'"
    by (auto dest: tagged_Inr)
  with Random show ?thesis by (auto dest!: Random_Get1D_Inr simp: uint_word_ariths)
next
  case (Sobol x)
  with assms obtain x' where "Sobol_Get1D env x = Inr (v, x')" "s' = Sobol x'"
    by (auto dest: tagged_Inr)
  with Sobol show ?thesis by (auto dest!: Sobol_Get1D_Inr)
next
  case (Stratified x)
  with assms obtain x' where "Stratified_Get1D env x = Inr (v, x')" "s' = Stratified x'"
    by (auto dest: tagged_Inr)
  with Stratified show ?thesis by (auto dest!: Stratified_Get1D_Inr)
qed

lemma Get2D_effect:
  assumes "Get2D env s = Inr (v, s')"
  shows "cursor s' = advanced s (if wraps2 env s then 2 else cursor s) 2 \<and> same_construction s s'"
proof (cases s)
  case (Halton x)
  with assms obtain x' where "Halton_Get2D env x = Inr (v, x')" "s' = Halton x'"
    by (auto dest: tagged_Inr)
  with Halton show ?thesis by (auto dest!: Halton_Get2D_Inr)
next
  case (PaddedSobol x)
  with assms obtain x' where "PaddedSobol_Get2D env x = Inr (v, x')" "s' = PaddedSobol x'"
    by (auto dest: tagged_Inr)
  with PaddedSobol show ?thesis by (auto dest!: PaddedSobol_Get2D_Inr)
next
  case (PMJ02BN x)
  with assms obtain x' where "PMJ02BN_Get2D env x = Inr (v, x')" "s' = PMJ02BN x'"
    by (auto dest: tagged_Inr)
  with PMJ02BN show ?thesis by (auto dest!: PMJ02BN_Get2D_Inr)
next
  case (Random x)
  with assms obtain x' where "Random_Get2D env x = Inr (v, x')" "s' = Random x'"
    by (auto dest: tagged_Inr)
  with Random show ?thesis by (auto dest!: Random_Get2D_Inr simp: uint_word_ariths)
next
  case (Sobol x)
  with assms obtain x' where "Sobol_Get2D env x = Inr (v, x')" "s' = Sobol x'"
    by (auto dest: tagged_Inr)
  with Sobol show ?thesis by (auto dest!: Sobol_Get2D_Inr)
next
  case (Stratified x)
  with assms obtain x' where "Stratified_Get2D env x = Inr (v, x')" "s' = Stratified x'"
    by (auto dest: tagged_Inr)
  with Stratified show ?thesis by (auto dest!: Stratified_Get2D_Inr)
qed









section \<open>Replaying a pixel sample\<close>

lemma Halton_offset_round_cong:
  assumes "baseScales a = baseScales b" "baseExponents a = baseExponents b"
    "multInverse a = multInverse b"
  shows "Halton_offset_round env a = Halton_offset_round env b"
  using assms by (intro ext) (simp add: Halton_offset_round_def)

lemma Halton_StartPixelSample_reset:
  assumes "h_samplesPerPixel a = h_samplesPerPixel b" "digitPermutations a = digitPermutations b"
    "baseScales a = baseScales b" "baseExponents a = baseExponents b"
    "multInverse a = multInverse b"
  shows "Halton_StartPixelSample env a p k d = Halton_StartPixelSample env b p k d"
proof -
  have r: "Halton_offset_round env a = Halton_offset_round env b"
    using assms by (intro Halton_offset_round_cong)
  have eq: "a\<lparr>haltonIndex := i, h_dimension := d\<rparr> = b\<lparr>haltonIndex := i, h_dimension := d\<rparr>" for i
    using assms(1,2,3,4,5) by (intro HaltonSampler.equality) simp_all
  show ?thesis
    unfolding Halton_StartPixelSample_def Let_def r assms(3) by (rule eq)
qed

lemma PaddedSobol_StartPixelSample_reset:
  assumes "ps_samplesPerPixel a = ps_samplesPerPixel b"
    "ps_randomizeStrategy a = ps_randomizeStrategy b"
  shows "PaddedSobol_StartPixelSample a p k d = PaddedSobol_StartPixelSample b p k d"
  unfolding PaddedSobol_StartPixelSample_def
  using assms by (intro PaddedSobolSampler.equality) simp_all

lemma PMJ02BN_StartPixelSample_reset:
  assumes "pmj_samplesPerPixel a = pmj_samplesPerPixel b" "pmj_seed a = pmj_seed b"
    "pixelTileSize a = pixelTileSize b" "pixelSamples a = pixelSamples b"
  shows "PMJ02BN_StartPixelSample a p k d = PMJ02BN_StartPixelSample b p k d"
  unfolding PMJ02BN_StartPixelSample_def
  using assms by (intro PMJ02BNSampler.equality) simp_all

lemma Random_StartPixelSample_reset:
  assumes "r_samplesPerPixel a = r_samplesPerPixel b" "r_seed a = r_seed b"
  shows "Random_StartPixelSample a p k d = Random_StartPixelSample b p k d"
  unfolding Random_StartPixelSample_def RNG_SetSequence_def
  using assms by (intro RandomSampler.equality) simp_all

lemma Sobol_StartPixelSample_reset:
  assumes "sob_samplesPerPixel a = sob_samplesPerPixel b" "sob_scale a = sob_scale b"
    "sob_randomizeStrategy a = sob_randomizeStrategy b"
  shows "Sobol_StartPixelSample env a p k d = Sobol_StartPixelSample env b p k d"
  unfolding Sobol_StartPixelSample_def
  using assms by (intro SobolSampler.equality) simp_all

lemma Stratified_StartPixelSample_reset:
  assumes "xPixelSamples a = xPixelSamples b" "yPixelSamples a = yPixelSamples b"
    "st_seed a = st_seed b" "jitter a = jitter b"
  shows "Stratified_StartPixelSample a p k d = Stratified_StartPixelSample b p k d"
  unfolding Stratified_StartPixelSample_def RNG_SetSequence_def
  using assms by (intro StratifiedSampler.equality) simp_all

lemma StartPixelSample_reset:
  assumes "same_construction a b"
  shows "StartPixelSample env a p k d = StartPixelSample env b p k d"
proof (cases a)
  case (Halton x)
  with assms obtain y where b: "b = Halton y" by (cases b) simp_all
  from assms have "Halton_StartPixelSample env x p k d = Halton_StartPixelSample env y p k d"
    unfolding Halton b by (intro Halton_StartPixelSample_reset) simp_all
  then show ?thesis unfolding Halton b by simp
next
  case (PaddedSobol x)
  with assms obtain y where b: "b = PaddedSobol y" by (cases b) simp_all
  from assms have "PaddedSobol_StartPixelSample x p k d = PaddedSobol_StartPixelSample y p k d"
    unfolding PaddedSobol b by (intro PaddedSobol_StartPixelSample_reset) simp_all
  then show ?thesis unfolding PaddedSobol b by simp
next
  case (PMJ02BN x)
  with assms obtain y where b: "b = PMJ02BN y" by (cases b) simp_all
  from assms have "PMJ02BN_StartPixelSample x p k d = PMJ02BN_StartPixelSample y p k d"
    unfolding PMJ02BN b by (intro PMJ02BN_StartPixelSample_reset) simp_all
  then show ?thesis unfolding PMJ02BN b by simp
next
  case (Random x)
  with assms obtain y where b: "b = Random y" by (cases b) simp_all
  from assms have "Random_StartPixelSample x p k d = Random_StartPixelSample y p k d"
    unfolding Random b by (intro Random_StartPixelSample_reset) simp_all
  then show ?thesis unfolding Random b by simp
next
  case (Sobol x)
  with assms obtain y where b: "b = Sobol y" by (cases b) simp_all
  from assms have "Sobol_StartPixelSample env x p k d = Sobol_StartPixelSample env y p k d"
    unfolding Sobol b by (intro Sobol_StartPixelSample_reset) simp_all
  then show ?thesis unfolding Sobol b by simp
next
  case (Stratified x)
  with assms obtain y where b: "b = Stratified y" by (cases b) simp_all
  from assms have "Stratified_StartPixelSample x p k d = Stratified_StartPixelSample y p k d"
    unfolding Stratified b by (intro Stratified_StartPixelSample_reset) simp_all
  then show ?thesis unfolding Stratified b by simp
qed

lemma same_construction_refl: "same_construction s s"
  by (cases s) simp_all

lemma same_construction_trans:
  "same_construction a b \<Longrightarrow> same_construction b c \<Longrightarrow> same_construction a c"
  by (cases a; cases b; simp; cases c; simp)

lemma run_same_construction:
  "run env reqs s = Inr (outs, s') \<Longrightarrow> same_construction s s'"
proof (induction reqs arbitrary: s outs)
  case Nil
  then show ?case by (simp add: same_construction_refl)
next
  case (Cons r rs)
  show ?case
  proof (cases r)
    case Request1D
    with Cons.prems obtain v s1 vs where g: "Get1D env s = Inr (v, s1)"
      and rest: "run env rs s1 = Inr (vs, s')"
      by (auto split: sum.splits)
    from Get1D_effect [OF g] Cons.IH [OF rest] show ?thesis
      by (blast intro: same_construction_trans)
  next
    case Request2D
    with Cons.prems obtain v s1 vs where g: "Get2D env s = Inr (v, s1)"
      and rest: "run env rs s1 = Inr (vs, s')"
      by (auto split: sum.splits)
    from Get2D_effect [OF g] Cons.IH [OF rest] show ?thesis
      by (blast intro: same_construction_trans)
  qed
qed

lemma StartPixelSample_same_construction:
  "same_construction s (StartPixelSample env s p k d)"
  by (cases s)
    (simp_all add: Halton_StartPixelSample_def PaddedSobol_StartPixelSample_def
      PMJ02BN_StartPixelSample_def Random_StartPixelSample_def Sobol_StartPixelSample_def
      Stratified_StartPixelSample_def Let_def)

text \<open>
  Claim C1. Take any of the six generator variants. Two objects built from the same
  construction parameters, in whatever states earlier use left them (two clones, or
  one object before and after an earlier run), give the same results, position by
  position, when \<^verbatim>\<open>StartPixelSample\<close> is called with the same arguments and the same
  sequence of \<^verbatim>\<open>Get1D\<close> and \<^verbatim>\<open>Get2D\<close> requests follows, under the same environment
  (global seed included): \<^verbatim>\<open>StartPixelSample\<close> assigns every member that the requests
  read or change.
\<close>

theorem replay_deterministic:
  "(same_construction a b \<longrightarrow>
      run env reqs (StartPixelSample env a p k d) = run env reqs (StartPixelSample env b p k d))
   \<and> (run env reqs0 (StartPixelSample env a p0 k0 d0) = Inr (outs, a') \<longrightarrow>
      run env reqs (StartPixelSample env a' p k d) = run env reqs (StartPixelSample env a p k d))"
proof (intro conjI impI)
  assume "same_construction a b"
  from StartPixelSample_reset [OF this, of env p k d]
  show "run env reqs (StartPixelSample env a p k d) = run env reqs (StartPixelSample env b p k d)"
    by simp
next
  assume "run env reqs0 (StartPixelSample env a p0 k0 d0) = Inr (outs, a')"
  then have "same_construction (StartPixelSample env a p0 k0 d0) a'"
    by (rule run_same_construction)
  with StartPixelSample_same_construction [of a env p0 k0 d0]
  have "same_construction a a'" by (rule same_construction_trans)
  from StartPixelSample_reset [OF this, of env p k d]
  show "run env reqs (StartPixelSample env a' p k d) = run env reqs (StartPixelSample env a p k d)"
    by simp
qed

theorem replay_deterministic_witness:
  "same_construction (Stratified stratified_example) (Stratified stratified_clone)
   \<and> Stratified stratified_example \<noteq> Stratified stratified_clone
   \<and> run env_example [Request2D, Request1D]
         (StartPixelSample env_example (Stratified stratified_example) (3, 2) 5 0)
       = run env_example [Request2D, Request1D]
           (StartPixelSample env_example (Stratified stratified_clone) (3, 2) 5 0)"
proof -
  have h: "same_construction (Stratified stratified_example) (Stratified stratified_clone)"
    by (simp add: stratified_example_def stratified_clone_def)
  have ne: "Stratified stratified_example \<noteq> Stratified stratified_clone"
    by (simp add: stratified_example_def stratified_clone_def)
  from replay_deterministic [of "Stratified stratified_example" "Stratified stratified_clone"
      env_example "[Request2D, Request1D]" "(3, 2)" 5 0] h ne
  show ?thesis by blast
qed

text \<open>
  The Metropolis samplers are not among these variants: their \<^verbatim>\<open>StartPixelSample\<close>
  reseeds the random number generator only and leaves the stream cursors, the primary
  samples and the iteration counter as they are.
\<close>

lemma MLT_StartPixelSample_keeps_cursors:
  "streamIndex (MLT_StartPixelSample m p k d) = streamIndex m
   \<and> mlt_sampleIndex (MLT_StartPixelSample m p k d) = mlt_sampleIndex m
   \<and> X (MLT_StartPixelSample m p k d) = X m
   \<and> currentIteration (MLT_StartPixelSample m p k d) = currentIteration m"
  by (simp add: MLT_StartPixelSample_def)

text \<open>
  Claim C10. The Halton sampler looks at the pixel only through its coordinates modulo
  128: for two pixels with congruent coordinates, \<^verbatim>\<open>StartPixelSample\<close> with the same
  sample index and start dimension leaves the same state, so the same requests return
  the same results.
\<close>

theorem Halton_pixel_mod_128:
  assumes "fst p mod 128 = fst q mod 128" "snd p mod 128 = snd q mod 128"
  shows "Halton_StartPixelSample env s p k d = Halton_StartPixelSample env s q k d
       \<and> run env reqs (StartPixelSample env (Halton s) p k d)
           = run env reqs (StartPixelSample env (Halton s) q k d)"
proof -
  have x: "Mod (pt p 0) MaxHaltonResolution = Mod (pt q 0) MaxHaltonResolution"
    using assms(1) by (simp add: Mod_def MaxHaltonResolution_def pt_def)
  have y: "Mod (pt p 1) MaxHaltonResolution = Mod (pt q 1) MaxHaltonResolution"
    using assms(2) by (simp add: Mod_def MaxHaltonResolution_def pt_def)
  have "Halton_StartPixelSample env s p k d = Halton_StartPixelSample env s q k d"
    unfolding Halton_StartPixelSample_def x y ..
  then show ?thesis by simp
qed

theorem Halton_pixel_mod_128_witness:
  "fst (5 :: int, 7 :: int) mod 128 = fst (133 :: int, - 121 :: int) mod 128
   \<and> snd (5 :: int, 7 :: int) mod 128 = snd (133 :: int, - 121 :: int) mod 128
   \<and> Halton_StartPixelSample env_example halton_example (5, 7) 3 0
       = Halton_StartPixelSample env_example halton_example (133, - 121) 3 0"
proof -
  have a: "fst (5 :: int, 7 :: int) mod 128 = fst (133 :: int, - 121 :: int) mod 128" by simp
  have b: "snd (5 :: int, 7 :: int) mod 128 = snd (133 :: int, - 121 :: int) mod 128" by simp
  from Halton_pixel_mod_128 [OF a b, of env_example halton_example 3 0 "[]"] a b
  show ?thesis by blast
qed

section \<open>The Halton index of a pixel sample\<close>

lemma s64_id: "- (2 ^ 63) \<le> x \<Longrightarrow> x < 2 ^ 63 \<Longrightarrow> s64 x = x"
  by (simp add: s64_def signed_take_bit_int_eq_self)

lemma s32_id: "- (2 ^ 31) \<le> x \<Longrightarrow> x < 2 ^ 31 \<Longrightarrow> s32 x = x"
  by (simp add: s32_def signed_take_bit_int_eq_self)

lemma u64_id: "0 \<le> x \<Longrightarrow> x < 2 ^ 64 \<Longrightarrow> u64 x = x"
  by (simp add: u64_def take_bit_int_eq_self)

lemma sdiv_pos: "0 \<le> a \<Longrightarrow> 0 < b \<Longrightarrow> a sdiv b = a div (b :: int)"
  by (simp add: signed_divide_int_def sgn_if)

lemma prod3_le:
  fixes a b c :: int
  assumes "0 \<le> a" "a \<le> A" "0 \<le> b" "b \<le> B" "0 \<le> c" "c \<le> C"
  shows "0 \<le> a * b * c \<and> a * b * c \<le> A * B * C"
proof -
  have ab: "a * b \<le> A * B" using assms by (intro mult_mono) auto
  have ab0: "0 \<le> a * b" using assms by simp
  have "a * b * c \<le> (A * B) * C" using ab ab0 assms by (intro mult_mono) auto
  moreover have "0 \<le> a * b * c" using ab0 assms by simp
  ultimately show ?thesis by simp
qed

lemma Halton_round_bounds:
  assumes wf: "Halton_wf env s" and i: "i < 2"
    and h: "0 \<le> h" "h \<le> 2 ^ 45"
  shows "0 \<le> Halton_offset_round env s pm (Halton_stride s) h i
       \<and> Halton_offset_round env s pm (Halton_stride s) h i \<le> h + 2 ^ 45"
proof -
  let ?off = "(if i = 0
             then uint (InverseRadicalInverse env (word_of_int (pt pm i)) 2 (pt (baseExponents s) i))
             else uint (InverseRadicalInverse env (word_of_int (pt pm i)) 3 (pt (baseExponents s) i)))"
  let ?q = "Halton_stride s sdiv pt (baseScales s) i"
  let ?mi = "pt (multInverse s) i"
  have off: "0 \<le> ?off" "?off \<le> 2 ^ 15"
    using wf i by (auto simp: Halton_wf_def pt_def less_2_cases_iff)
  have q: "?q = (if i = 0 then snd (baseScales s) else fst (baseScales s))"
    using wf i by (auto simp: Halton_wf_def Halton_stride_def pt_def sdiv_pos less_2_cases_iff)
  have qb: "0 \<le> ?q" "?q \<le> 2 ^ 15"
    unfolding q using wf by (auto simp: Halton_wf_def)
  have mi: "0 \<le> ?mi" "?mi \<le> 2 ^ 15"
    using wf by (auto simp: Halton_wf_def pt_def)
  have uq: "u64 ?q = ?q" using qb by (intro u64_id) auto
  have um: "u64 ?mi = ?mi" using mi by (intro u64_id) auto
  from prod3_le [OF off qb mi]
  have p: "0 \<le> ?off * ?q * ?mi" "?off * ?q * ?mi \<le> 2 ^ 45" by simp_all
  have r: "Halton_offset_round env s pm (Halton_stride s) h i = s64 (h + ?off * ?q * ?mi)"
    by (simp only: Halton_offset_round_def Let_def uq um)
  have "s64 (h + ?off * ?q * ?mi) = h + ?off * ?q * ?mi"
    using p h by (intro s64_id) auto
  with p h show ?thesis unfolding r by simp
qed

lemma Halton_stride_bounds:
  assumes "Halton_wf env s"
  shows "1 \<le> Halton_stride s" "Halton_stride s \<le> 2 ^ 30"
proof -
  from assms have a: "1 \<le> fst (baseScales s)" "fst (baseScales s) \<le> 2 ^ 15"
    and b: "1 \<le> snd (baseScales s)" "snd (baseScales s) \<le> 2 ^ 15"
    by (auto simp: Halton_wf_def)
  have "1 * 1 \<le> fst (baseScales s) * snd (baseScales s)"
    using a b by (intro mult_mono) auto
  then show "1 \<le> Halton_stride s" by (simp add: Halton_stride_def)
  have "fst (baseScales s) * snd (baseScales s) \<le> 2 ^ 15 * 2 ^ 15"
    using a b by (intro mult_mono) auto
  then show "Halton_stride s \<le> 2 ^ 30" by (simp add: Halton_stride_def)
qed

lemma Halton_index_eq:
  assumes wf: "Halton_wf env s"
  shows "\<exists>h. 0 \<le> h \<and> h < Halton_stride s
           \<and> (\<forall>k d. haltonIndex (Halton_StartPixelSample env s p k d)
                      = s64 (h + s32 (k * Halton_stride s)))"
proof -
  note sb = Halton_stride_bounds [OF wf]
  have st: "s32 (fst (baseScales s) * snd (baseScales s)) = Halton_stride s"
    unfolding Halton_stride_def [symmetric] using sb by (intro s32_id) auto
  let ?pm = "(Mod (pt p 0) MaxHaltonResolution, Mod (pt p 1) MaxHaltonResolution)"
  let ?f = "Halton_offset_round env s ?pm (Halton_stride s)"
  let ?h = "(if Halton_stride s > 1 then foldl ?f 0 [0, 1] smod Halton_stride s else 0)"
  have r0: "0 \<le> ?f 0 0 \<and> ?f 0 0 \<le> 0 + 2 ^ 45"
    using wf by (intro Halton_round_bounds) auto
  then have r1: "0 \<le> ?f (?f 0 0) 1"
    using wf by (intro Halton_round_bounds [THEN conjunct1]) auto
  have fold: "foldl ?f 0 [0, 1] = ?f (?f 0 0) 1" by simp
  have h: "0 \<le> ?h \<and> ?h < Halton_stride s"
  proof (cases "Halton_stride s > 1")
    case True
    then have "0 < Halton_stride s" by simp
    with r1 have "0 \<le> ?f (?f 0 0) 1 smod Halton_stride s"
      and "?f (?f 0 0) 1 smod Halton_stride s < Halton_stride s"
      by (simp_all add: smod_int_compares)
    with True show ?thesis unfolding fold by simp
  next
    case False
    with sb show ?thesis by simp
  qed
  have "haltonIndex (Halton_StartPixelSample env s p k d) = s64 (?h + s32 (k * Halton_stride s))"
    for k d
    unfolding Halton_StartPixelSample_def Let_def st by simp
  with h show ?thesis by blast
qed

text \<open>
  Within the range of \<^verbatim>\<open>int\<close>: for a HaltonSampler as its construction leaves it, every
  pixel \<open>p\<close> has an offset in \<open>[0, stride)\<close>, the index established for its sample 0,
  and for every sample index \<open>k\<close> and start dimension \<open>d\<close> the index that
  \<^verbatim>\<open>StartPixelSample(p, k, d)\<close> establishes is \<open>offset + k * stride\<close>, as long as the
  \<^verbatim>\<open>int\<close> product \<open>k * stride\<close> does not overflow. When that holds for the whole range
  \<open>0 .. SamplesPerPixel() - 1\<close>, the indices of one pixel are pairwise distinct.
\<close>

theorem Halton_index_stride:
  assumes wf: "Halton_wf env s"
  shows "0 \<le> Halton_offset env s p \<and> Halton_offset env s p < Halton_stride s
       \<and> (\<forall>k d. - (2 ^ 31) \<le> k * Halton_stride s \<and> k * Halton_stride s < 2 ^ 31 \<longrightarrow>
             haltonIndex (Halton_StartPixelSample env s p k d)
               = Halton_offset env s p + k * Halton_stride s)
       \<and> (h_samplesPerPixel s * Halton_stride s \<le> 2 ^ 31 \<longrightarrow>
             inj_on (\<lambda>k. haltonIndex (Halton_StartPixelSample env s p k d))
               {0 ..< Halton_SamplesPerPixel s})"
proof -
  note sb = Halton_stride_bounds [OF wf]
  from Halton_index_eq [OF wf, of p] obtain h where h: "0 \<le> h" "h < Halton_stride s"
    and idx: "\<And>k d. haltonIndex (Halton_StartPixelSample env s p k d)
                      = s64 (h + s32 (k * Halton_stride s))"
    by blast
  have lin: "haltonIndex (Halton_StartPixelSample env s p k d) = h + k * Halton_stride s"
    if "- (2 ^ 31) \<le> k * Halton_stride s" "k * Halton_stride s < 2 ^ 31" for k d
  proof -
    have "s32 (k * Halton_stride s) = k * Halton_stride s"
      using that by (intro s32_id)
    moreover have "s64 (h + k * Halton_stride s) = h + k * Halton_stride s"
      using that h sb by (intro s64_id) auto
    ultimately show ?thesis by (simp add: idx)
  qed
  have off: "Halton_offset env s p = h"
    unfolding Halton_offset_def using lin [of 0 0] by simp
  have inj: "inj_on (\<lambda>k. haltonIndex (Halton_StartPixelSample env s p k d))
               {0 ..< Halton_SamplesPerPixel s}"
    if spp: "h_samplesPerPixel s * Halton_stride s \<le> 2 ^ 31"
  proof (rule inj_onI)
    fix k1 k2
    assume k1: "k1 \<in> {0 ..< Halton_SamplesPerPixel s}"
      and k2: "k2 \<in> {0 ..< Halton_SamplesPerPixel s}"
      and eq: "haltonIndex (Halton_StartPixelSample env s p k1 d)
             = haltonIndex (Halton_StartPixelSample env s p k2 d)"
    have rng: "- (2 ^ 31) \<le> k * Halton_stride s \<and> k * Halton_stride s < 2 ^ 31"
      if "k \<in> {0 ..< Halton_SamplesPerPixel s}" for k
    proof -
      from that have k: "0 \<le> k" "k + 1 \<le> h_samplesPerPixel s"
        by (simp_all add: Halton_SamplesPerPixel_def)
      have "0 \<le> k * Halton_stride s" using k sb by simp
      moreover have "(k + 1) * Halton_stride s \<le> h_samplesPerPixel s * Halton_stride s"
        using k sb by (intro mult_right_mono) auto
      moreover have "k * Halton_stride s < (k + 1) * Halton_stride s"
        using sb by (simp add: algebra_simps)
      ultimately show ?thesis using spp by simp
    qed
    from lin rng [OF k1] rng [OF k2] eq
    have "h + k1 * Halton_stride s = h + k2 * Halton_stride s" by simp
    with sb show "k1 = k2" by simp
  qed
  show ?thesis
    using h lin inj unfolding off by blast
qed

lemma halton_example_wf: "Halton_wf env_example halton_example"
proof -
  have "uint (word_of_int (uint a mod 2) :: 64 word) \<le> 2 ^ 15" for a :: "64 word"
  proof -
    have "uint (word_of_int (uint a mod 2) :: 64 word) = take_bit 64 (uint a mod 2)"
      by (simp add: uint_word_of_int_eq)
    also have "\<dots> = uint a mod 2" by (intro take_bit_int_eq_self) auto
    also have "\<dots> \<le> 2 ^ 15" by (rule order_trans [of _ 2]) auto
    finally show ?thesis .
  qed
  moreover have "uint (word_of_int (uint a mod 3) :: 64 word) \<le> 2 ^ 15" for a :: "64 word"
  proof -
    have "uint (word_of_int (uint a mod 3) :: 64 word) = take_bit 64 (uint a mod 3)"
      by (simp add: uint_word_of_int_eq)
    also have "\<dots> = uint a mod 3" by (intro take_bit_int_eq_self) auto
    also have "\<dots> \<le> 2 ^ 15" by (rule order_trans [of _ 3]) auto
    finally show ?thesis .
  qed
  ultimately show ?thesis
    by (simp add: Halton_wf_def halton_example_def env_example_def)
qed

lemma halton_example_offset: "Halton_offset env_example halton_example (5, 7) = 1"
  by (simp add: Halton_offset_def Halton_StartPixelSample_def Halton_offset_round_def
      halton_example_def env_example_def Let_def pt_def Mod_def MaxHaltonResolution_def
      s64_def s32_def u64_def signed_divide_int_def signed_modulo_int_def uint_word_of_int_eq
      signed_take_bit_int_eq_self take_bit_int_eq_self)

theorem Halton_index_stride_witness:
  "Halton_wf env_example halton_example
   \<and> Halton_stride halton_example = 6
   \<and> Halton_offset env_example halton_example (5, 7) = 1
   \<and> haltonIndex (Halton_StartPixelSample env_example halton_example (5, 7) 3 0) = 19
   \<and> inj_on (\<lambda>k. haltonIndex (Halton_StartPixelSample env_example halton_example (5, 7) k 0))
        {0 ..< 4}"
proof -
  have st: "Halton_stride halton_example = 6" and spp: "h_samplesPerPixel halton_example = 4"
    "Halton_SamplesPerPixel halton_example = 4"
    by (simp_all add: Halton_stride_def halton_example_def Halton_SamplesPerPixel_def)
  from Halton_index_stride [OF halton_example_wf, of "(5, 7)" 0]
  show ?thesis
    unfolding st spp halton_example_offset using halton_example_wf by simp
qed

lemma multiplicativeInverse_range:
  assumes "0 < n" "n < 2 ^ 64"
  shows "0 \<le> multiplicativeInverse a n \<and> multiplicativeInverse a n < n"
proof -
  obtain x y where e: "extendedGCD (nat (u64 a)) (nat (u64 n)) = (x, y)"
    by (cases "extendedGCD (nat (u64 a)) (nat (u64 n))")
  have r: "0 \<le> x mod n" "x mod n < n" using assms(1) by simp_all
  then have "u64 (x mod n) = x mod n"
    using assms(2) by (simp add: u64_def take_bit_int_eq_self)
  with r show ?thesis
    by (simp add: multiplicativeInverse_def e Mod_def)
qed

lemma example_inverses:
  "multiplicativeInverse 3 2 = 1" "multiplicativeInverse 2 3 = 2"
  "multiplicativeInverse 243 128 = 59" "multiplicativeInverse 128 243 = 131"
  by (simp_all add: multiplicativeInverse_def extendedGCD.simps u64_def s64_def Mod_def
      take_bit_int_eq_self signed_take_bit_int_eq_self)

lemma halton_large_wf: "Halton_wf env_example halton_large"
proof -
  have "uint (word_of_int (uint a mod 2 ^ 7) :: 64 word) \<le> 2 ^ 15" for a :: "64 word"
  proof -
    have "uint (word_of_int (uint a mod 2 ^ 7) :: 64 word) = take_bit 64 (uint a mod 2 ^ 7)"
      by (simp add: uint_word_of_int_eq)
    also have "\<dots> = uint a mod 2 ^ 7" by (intro take_bit_int_eq_self) auto
    also have "\<dots> \<le> 2 ^ 15" by (rule order_trans [of _ "2 ^ 7"]) auto
    finally show ?thesis .
  qed
  moreover have "uint (word_of_int (uint a mod 3 ^ 5) :: 64 word) \<le> 2 ^ 15" for a :: "64 word"
  proof -
    have "uint (word_of_int (uint a mod 3 ^ 5) :: 64 word) = take_bit 64 (uint a mod 3 ^ 5)"
      by (simp add: uint_word_of_int_eq)
    also have "\<dots> = uint a mod 3 ^ 5" by (intro take_bit_int_eq_self) auto
    also have "\<dots> \<le> 2 ^ 15" by (rule order_trans [of _ "3 ^ 5"]) auto
    finally show ?thesis .
  qed
  ultimately show ?thesis
    by (simp add: Halton_wf_def halton_large_def env_example_def)
qed

text \<open>
  Claim C6. The index that \<^verbatim>\<open>StartPixelSample(p, k, d)\<close> establishes should be
  \<open>offset + k * stride\<close> with \<open>stride = baseScales[0] * baseScales[1]\<close> and the offset of
  the pixel in \<open>[0, stride)\<close>. The source forms \<^verbatim>\<open>sampleIndex * sampleStride\<close> as a
  product of two \<^verbatim>\<open>int\<close> before it adds it to the \<^verbatim>\<open>int64_t\<close> index. For an image of
  at least 128 by 128 pixels the stride is 31104, and at sample index 69043 the product
  \<open>2147513472\<close> is beyond the largest \<^verbatim>\<open>int\<close>: it comes out as \<open>-2147453824\<close>, and the
  index established is not \<open>offset + k * stride\<close>.
\<close>

theorem Halton_index_overflow:
  "Halton_wf env_example halton_large
   \<and> Halton_stride halton_large = 31104
   \<and> 69043 < Halton_SamplesPerPixel halton_large
   \<and> s32 (69043 * Halton_stride halton_large) = - 2147453824
   \<and> haltonIndex (Halton_StartPixelSample env_example halton_large (5, 7) 69043 0)
       = Halton_offset env_example halton_large (5, 7) - 2147453824
   \<and> haltonIndex (Halton_StartPixelSample env_example halton_large (5, 7) 69043 0)
       \<noteq> Halton_offset env_example halton_large (5, 7) + 69043 * Halton_stride halton_large"
proof -
  have st: "Halton_stride halton_large = 31104"
    by (simp add: Halton_stride_def halton_large_def)
  have spp: "69043 < Halton_SamplesPerPixel halton_large"
    by (simp add: Halton_SamplesPerPixel_def halton_large_def)
  have w: "s32 (69043 * Halton_stride halton_large) = - 2147453824"
    unfolding st by (simp add: s32_def signed_take_bit_eq_take_bit_shift take_bit_eq_mod)
  from Halton_index_eq [OF halton_large_wf, of "(5, 7)"] obtain h where
    h: "0 \<le> h" "h < Halton_stride halton_large"
    and idx: "\<And>k d. haltonIndex (Halton_StartPixelSample env_example halton_large (5, 7) k d)
               = s64 (h + s32 (k * Halton_stride halton_large))"
    by blast
  have off: "Halton_offset env_example halton_large (5, 7) = h"
    unfolding Halton_offset_def idx using h st by (simp add: s32_id s64_id)
  have "s64 (h - 2147453824) = h - 2147453824"
    using h st by (intro s64_id) auto
  then have v: "haltonIndex (Halton_StartPixelSample env_example halton_large (5, 7) 69043 0)
       = h - 2147453824"
    unfolding idx w by simp
  show ?thesis
    using halton_large_wf st spp w v unfolding off by simp
qed

section \<open>Wraparound of the dimension cursor\<close>




lemma Halton_sample_at_cursor [simp]:
  "Halton_sample_at env (s\<lparr>h_dimension := c\<rparr>) = Halton_sample_at env s"
  by (intro ext) (simp add: Halton_sample_at_def)


lemma Sobol_SampleDimension_cursor [simp]:
  "Sobol_SampleDimension env (s\<lparr>sob_dimension := c\<rparr>) = Sobol_SampleDimension env s"
  by (intro ext) (simp add: Sobol_SampleDimension_def Let_def)






section \<open>Stratification of the StratifiedSampler\<close>

lemma exact_value:
  assumes "exact_on_eighths env" "0 \<le> m" "m \<le> 32" "q = of_int m / 8"
  shows "fl env q = q"
proof -
  have "m \<in> {0..32}" using assms(2,3) by simp
  with assms(1) have "fl env (of_int m / 8) = of_int m / 8"
    unfolding exact_on_eighths_def by blast
  then show ?thesis unfolding assms(4) .
qed

lemma centre_coordinate:
  assumes ex: "exact_on_eighths env" and x: "0 \<le> x" "x < 4"
  shows "fdiv env (fadd env (Float_of_int env x) (1 / 2)) (Float_of_int env 4)
           = (of_int x + 1 / 2) / 4"
proof -
  have a: "fl env (of_int x) = of_int x"
    using x by (intro exact_value [OF ex, of "8 * x"]) auto
  have b: "fl env (of_int x + 1 / 2) = of_int x + 1 / 2"
    using x by (intro exact_value [OF ex, of "8 * x + 4"]) (auto simp: field_simps)
  have c: "fl env 4 = 4"
    by (intro exact_value [OF ex, of 32]) auto
  have d: "fl env ((of_int x + 1 / 2) / 4) = (of_int x + 1 / 2) / 4"
    using x by (intro exact_value [OF ex, of "2 * x + 1"]) (auto simp: field_simps)
  show ?thesis
    by (simp add: fdiv_def fadd_def Float_of_int_def a b c d)
qed

lemma smod_nonneg: "0 \<le> a \<Longrightarrow> 0 < b \<Longrightarrow> a smod b = a mod (b :: int)"
  by (simp add: smod_mod_positive)

lemma Stratified_first_Get2D:
  assumes g: "xPixelSamples s = 4" "yPixelSamples s = 4" "\<not> jitter s"
    and ex: "exact_on_eighths env"
    and t: "t = PermutationElement env (word_of_int k) 16 (ucast (pixel_hash env pixel 0 (st_seed s)))"
    and r: "0 \<le> t" "t < 16"
  shows "first_Get2D env (Stratified s) pixel k = Inr (cell_centre (t mod 4) (t div 4))"
proof -
  let ?s0 = "Stratified_StartPixelSample s pixel k 0"
  have f: "xPixelSamples ?s0 = 4" "yPixelSamples ?s0 = 4" "\<not> jitter ?s0"
    "st_pixel ?s0 = pixel" "st_dimension ?s0 = 0" "st_sampleIndex ?s0 = k" "st_seed ?s0 = st_seed s"
    using g by (simp_all add: Stratified_StartPixelSample_def)
  have spp: "Stratified_SamplesPerPixel ?s0 = 16"
    by (simp add: Stratified_SamplesPerPixel_def f s32_def signed_take_bit_int_eq_self)
  have st: "permuted_index env k 16 (pixel_hash env pixel 0 (st_seed s)) = t"
    unfolding permuted_index_def t by simp
  have xm: "t smod 4 = t mod 4" and yd: "t sdiv 4 = t div 4"
    using r by (simp_all add: smod_nonneg sdiv_pos)
  have cx: "fdiv env (fadd env (Float_of_int env (t mod 4)) (1 / 2)) (Float_of_int env 4)
              = (of_int (t mod 4) + 1 / 2) / 4"
    using r by (intro centre_coordinate [OF ex]) auto
  have cy: "fdiv env (fadd env (Float_of_int env (t div 4)) (1 / 2)) (Float_of_int env 4)
              = (of_int (t div 4) + 1 / 2) / 4"
    using r by (intro centre_coordinate [OF ex]) auto
  have "\<exists>s'. Stratified_Get2D env ?s0 = Inr (cell_centre (t mod 4) (t div 4), s')"
    unfolding Stratified_Get2D_def Let_def f spp st Stratified_delta_def xm yd
    using f(3) by (simp add: cx cy cell_centre_def)
  then show ?thesis
    by (auto simp: first_Get2D_def tagged_def)
qed

lemma cell_centre_inj:
  "cell_centre x y = cell_centre x' y' \<longleftrightarrow> x = x' \<and> y = y'"
  by (auto simp: cell_centre_def)

text \<open>
  Claim C3. For a StratifiedSampler with 4 by 4 strata and jitter disabled, whatever the
  pixel and the seed: the pairs that the first \<^verbatim>\<open>Get2D\<close> call returns after
  \<^verbatim>\<open>StartPixelSample(pixel, k, 0)\<close>, for \<open>k = 0, ..., 15\<close>, are the centres of the 16
  cells of the 4 by 4 grid, each cell exactly once. \<^verbatim>\<open>PermutationElement\<close> is assumed
  to permute \<open>0, ..., 15\<close> under every hash, and \<^verbatim>\<open>Float\<close> to represent the multiples of
  1/8 up to 4.
\<close>

theorem Stratified_4x4_cells_once:
  assumes g: "xPixelSamples s = 4" "yPixelSamples s = 4" "\<not> jitter s"
    and ex: "exact_on_eighths env"
    and perm: "\<forall>h. bij_betw (\<lambda>i. PermutationElement env (word_of_int i) 16 h) {0..<16} {0..<16::int}"
  shows "bij_betw (first_Get2D env (Stratified s) pixel) {0..<16}
           (Inr ` {cell_centre x y | x y. x \<in> {0..<4} \<and> y \<in> {0..<4}})"
proof -
  let ?h = "ucast (pixel_hash env pixel 0 (st_seed s)) :: 32 word"
  let ?pi = "\<lambda>i. PermutationElement env (word_of_int i) 16 ?h"
  from perm have bij: "bij_betw ?pi {0..<16} {0..<16}" by blast
  have rng: "0 \<le> ?pi k \<and> ?pi k < 16" if "k \<in> {0..<16}" for k
    using bij_betwE [OF bij] that by fastforce
  have out: "first_Get2D env (Stratified s) pixel k
               = Inr (cell_centre (?pi k mod 4) (?pi k div 4))" if "k \<in> {0..<16}" for k
    using rng [OF that] by (intro Stratified_first_Get2D [OF g ex]) auto
  have inj: "inj_on (first_Get2D env (Stratified s) pixel) {0..<16}"
  proof (rule inj_onI)
    fix k1 k2 :: int
    assume k: "k1 \<in> {0..<16}" "k2 \<in> {0..<16}"
      and eq: "first_Get2D env (Stratified s) pixel k1 = first_Get2D env (Stratified s) pixel k2"
    from eq have "cell_centre (?pi k1 mod 4) (?pi k1 div 4)
                    = cell_centre (?pi k2 mod 4) (?pi k2 div 4)"
      unfolding out [OF k(1)] out [OF k(2)] by simp
    then have "?pi k1 mod 4 = ?pi k2 mod 4" "?pi k1 div 4 = ?pi k2 div 4"
      unfolding cell_centre_inj by simp_all
    then have "?pi k1 = ?pi k2"
      by (metis mult_div_mod_eq)
    with k show "k1 = k2"
      using bij_betw_imp_inj_on [OF bij] by (auto dest: inj_onD)
  qed
  have img: "first_Get2D env (Stratified s) pixel ` {0..<16}
               = Inr ` {cell_centre x y | x y. x \<in> {0..<4} \<and> y \<in> {0..<4}}"
  proof (intro set_eqI iffI)
    fix r assume "r \<in> first_Get2D env (Stratified s) pixel ` {0..<16}"
    then obtain k where k: "k \<in> {0..<16}" and r: "r = first_Get2D env (Stratified s) pixel k"
      by blast
    from rng [OF k] have "?pi k mod 4 \<in> {0..<4}" "?pi k div 4 \<in> {0..<4}" by auto
    then show "r \<in> Inr ` {cell_centre x y | x y. x \<in> {0..<4} \<and> y \<in> {0..<4}}"
      unfolding r out [OF k] by blast
  next
    fix r :: "error + Point2f"
    assume "r \<in> Inr ` {cell_centre x y | x y. x \<in> {0..<4} \<and> y \<in> {0..<4}}"
    then obtain x y :: int where xy: "x \<in> {0..<4}" "y \<in> {0..<4}" and r: "r = Inr (cell_centre x y)"
      by blast
    from xy have "4 * y + x \<in> {0..<16}" by auto
    with bij obtain k where k: "k \<in> {0..<16}" and pk: "?pi k = 4 * y + x"
      unfolding bij_betw_def by (metis (no_types, lifting) imageE)
    from xy have "(4 * y + x) mod 4 = x" "(4 * y + x) div 4 = y" by auto
    then have "first_Get2D env (Stratified s) pixel k = r"
      unfolding r out [OF k] pk by simp
    with k show "r \<in> first_Get2D env (Stratified s) pixel ` {0..<16}" by blast
  qed
  show ?thesis
    unfolding bij_betw_def using inj img by blast
qed

lemma env_example_permutes:
  "bij_betw (\<lambda>i. PermutationElement env_example (word_of_int i) 16 h) {0..<16} {0..<16::int}"
proof -
  let ?c = "uint h"
  have f: "PermutationElement env_example (word_of_int i) 16 h = (i + ?c) mod 16"
    if "i \<in> {0..<16}" for i :: int
  proof -
    from that have "take_bit 32 i = i" by (intro take_bit_int_eq_self) auto
    then have "uint (word_of_int i :: 32 word) = i" by (simp add: uint_word_of_int_eq)
    then show ?thesis by (simp add: env_example_def)
  qed
  have "bij_betw (\<lambda>i. (i + ?c) mod 16) {0..<16} {0..<16::int}"
  proof (rule bij_betw_byWitness [where f' = "\<lambda>t. (t - ?c) mod 16"])
    show "\<forall>a\<in>{0..<16}. ((a + ?c) mod 16 - ?c) mod 16 = a"
      by (auto simp: mod_simps)
    show "\<forall>a'\<in>{0..<16}. ((a' - ?c) mod 16 + ?c) mod 16 = a'"
      by (auto simp: mod_simps)
    show "(\<lambda>i. (i + ?c) mod 16) ` {0..<16} \<subseteq> {0..<16}" by auto
    show "(\<lambda>t. (t - ?c) mod 16) ` {0..<16} \<subseteq> {0..<16}" by auto
  qed
  then show ?thesis
    by (rule bij_betw_cong [THEN iffD2, rotated]) (simp add: f)
qed

lemma env_example_exact: "exact_on_eighths env_example"
  by (simp add: exact_on_eighths_def env_example_def)

theorem Stratified_4x4_cells_once_witness:
  "xPixelSamples stratified_example = 4 \<and> yPixelSamples stratified_example = 4
   \<and> \<not> jitter stratified_example
   \<and> exact_on_eighths env_example
   \<and> bij_betw (first_Get2D env_example (Stratified stratified_example) (3, 2)) {0..<16}
        (Inr ` {cell_centre x y | x y. x \<in> {0..<4} \<and> y \<in> {0..<4}})"
proof -
  have g: "xPixelSamples stratified_example = 4" "yPixelSamples stratified_example = 4"
    "\<not> jitter stratified_example"
    by (simp_all add: stratified_example_def)
  have p: "\<forall>h. bij_betw (\<lambda>i. PermutationElement env_example (word_of_int i) 16 h)
             {0..<16} {0..<16::int}"
    using env_example_permutes by blast
  from Stratified_4x4_cells_once [OF g env_example_exact p, of "(3, 2)"] g env_example_exact
  show ?thesis by blast
qed

section \<open>Where the returned values are bounded\<close>

text \<open>
  The PMJ02BN sampler clamps its one-dimensional result to \<^verbatim>\<open>OneMinusEpsilon\<close>. The
  stratified sampler returns the quotient \<open>(stratum + delta) / n\<close> as the arithmetic
  of \<^verbatim>\<open>Float\<close> computes it. With exact arithmetic the quotient lies in \<open>[0, 1)\<close> for a
  stratum in \<open>[0, n)\<close> and an offset in \<open>[0, 1)\<close>. Under a rounding that takes
  \<open>2 - 2\<^sup>-\<^sup>2\<^sup>4\<close> to 2, as rounding to nearest even does in binary32, stratum 1 of 2
  with the offset \<open>1 - 2\<^sup>-\<^sup>2\<^sup>4\<close> gives exactly 1.
\<close>

lemma PMJ02BN_Get1D_clamped:
  "PMJ02BN_Get1D env s = Inr (v, s') \<Longrightarrow> v \<le> OneMinusEpsilon env"
  by (auto simp: PMJ02BN_Get1D_def Let_def)

lemma Stratified_Get1D_value:
  "\<exists>s'. Stratified_Get1D env s =
     Inr (fdiv env
            (fadd env
               (Float_of_int env
                  (permuted_index env (st_sampleIndex s) (Stratified_SamplesPerPixel s)
                     (pixel_hash env (st_pixel s) (st_dimension s) (st_seed s))))
               (fst (Stratified_delta env (jitter s) (st_rng s))))
            (Float_of_int env (Stratified_SamplesPerPixel s)), s')"
  by (simp add: Stratified_Get1D_def Let_def split: prod.splits)

lemma Stratified_quotient_exact:
  assumes "\<forall>q. fl env q = q" "0 \<le> stratum" "stratum < n" "0 \<le> delta" "delta < 1"
  shows "0 \<le> fdiv env (fadd env (Float_of_int env stratum) delta) (Float_of_int env n)
       \<and> fdiv env (fadd env (Float_of_int env stratum) delta) (Float_of_int env n) < 1"
proof -
  have n: "0 < (of_int n :: rat)" using assms by simp
  have "of_int stratum + delta < (of_int n :: rat)"
  proof -
    have "of_int stratum + 1 \<le> (of_int n :: rat)"
      using assms(3) by (metis of_int_1 of_int_add of_int_le_iff zless_imp_add1_zle)
    with assms(5) show ?thesis by simp
  qed
  moreover have "0 \<le> of_int stratum + delta" using assms by simp
  ultimately show ?thesis
    using n by (simp add: fdiv_def fadd_def Float_of_int_def assms(1) divide_less_eq)
qed

lemma Stratified_quotient_rounded:
  assumes "fl env 1 = 1" "fl env 2 = 2" "fl env (2 - 1 / 2 ^ 24) = 2"
  shows "fdiv env (fadd env (Float_of_int env 1) (1 - 1 / 2 ^ 24)) (Float_of_int env 2) = 1"
proof -
  have h: "(1 :: rat) + (1 - 1 / 2 ^ 24) = 2 - 1 / 2 ^ 24" by simp
  have a: "fadd env (Float_of_int env 1) (1 - 1 / 2 ^ 24) = 2"
    by (simp only: fadd_def Float_of_int_def of_int_1 assms(1) h assms(3))
  have b: "Float_of_int env 2 = 2"
    by (simp only: Float_of_int_def of_int_numeral assms(2))
  show ?thesis
    unfolding a b by (simp add: fdiv_def assms(1))
qed

subsection \<open>Values of the binary32 rounding\<close>

lemma floorlog2_eq: "2 ^ k \<le> n \<Longrightarrow> n < 2 ^ Suc k \<Longrightarrow> floorlog 2 n = Suc k"
  by (intro antisym floorlog_leI floorlog_ge_SucI) auto

text \<open>The exponent is that of the binade of the number, from the smallest normal binade on.\<close>

lemma binary32_exponent_eq:
  assumes "- 126 \<le> e" "2 powi e \<le> \<bar>x\<bar>" "\<bar>x\<bar> < 2 powi (e + 1)"
  shows "binary32_exponent x = e"
proof -
  define k where "k = nat (e + 149)"
  let ?n = "nat \<lfloor>\<bar>x\<bar> * 2 ^ 149\<rfloor>"
  have k: "int k = e + 149" using assms(1) by (simp add: k_def)
  have p: "(2 :: rat) powi e * 2 ^ 149 = 2 ^ k"
  proof -
    have "(2 :: rat) powi e * 2 powi 149 = 2 powi (e + 149)"
      by (simp add: power_int_add)
    also have "\<dots> = 2 powi (int k)" by (simp only: k)
    finally show ?thesis by simp
  qed
  have p1: "(2 :: rat) powi (e + 1) * 2 ^ 149 = 2 ^ Suc k"
  proof -
    have "(2 :: rat) powi (e + 1) = 2 powi e * 2" by (simp add: power_int_add)
    then show ?thesis using p by simp
  qed
  have "(2 :: rat) ^ k \<le> \<bar>x\<bar> * 2 ^ 149"
    unfolding p [symmetric] using assms(2) by simp
  then have "(2 :: int) ^ k \<le> \<lfloor>\<bar>x\<bar> * 2 ^ 149\<rfloor>" by (simp add: le_floor_iff)
  then have lo: "2 ^ k \<le> ?n" by (simp add: le_nat_iff)
  have "\<bar>x\<bar> * 2 ^ 149 < 2 ^ Suc k"
    unfolding p1 [symmetric] using assms(3) by simp
  then have "\<lfloor>\<bar>x\<bar> * 2 ^ 149\<rfloor> < (2 :: int) ^ Suc k" by (simp add: floor_less_iff)
  then have hi: "?n < 2 ^ Suc k" by (simp add: nat_less_iff)
  from floorlog2_eq [OF lo hi] k assms(1) show ?thesis by (simp add: binary32_exponent_def)
qed

lemma round_half_even_int: "round_half_even (of_int i) = i"
  by (simp add: round_half_even_def)

lemma binary32_1: "binary32 1 = 1"
proof -
  have e: "binary32_exponent 1 = 0"
    by (rule binary32_exponent_eq) simp_all
  have q: "(2 :: rat) powi (0 - 23) = 1 / 8388608" by (simp add: power_int_def power_one_over)
  have r: "round_half_even (\<bar>1\<bar> / (1 / 8388608)) = 8388608"
    using round_half_even_int [of 8388608] by simp
  show ?thesis
    unfolding binary32_def e q Let_def r by simp
qed

lemma binary32_2: "binary32 2 = 2"
proof -
  have e: "binary32_exponent 2 = 1"
    by (rule binary32_exponent_eq) simp_all
  have q: "(2 :: rat) powi (1 - 23) = 1 / 4194304" by (simp add: power_int_def power_one_over)
  have r: "round_half_even (\<bar>2\<bar> / (1 / 4194304)) = 8388608"
    using round_half_even_int [of 8388608] by simp
  show ?thesis
    unfolding binary32_def e q Let_def r by simp
qed

text \<open>
  \<open>2 - 2\<^sup>-\<^sup>2\<^sup>4\<close> lies halfway between the neighbouring binary32 numbers
  \<open>2 - 2\<^sup>-\<^sup>2\<^sup>3\<close> and 2; the tie goes to the even significand, which is that of 2.
\<close>

lemma binary32_below_2: "binary32 (2 - 1 / 2 ^ 24) = 2"
proof -
  have e: "binary32_exponent (2 - 1 / 2 ^ 24) = 0"
    by (rule binary32_exponent_eq) simp_all
  have q: "(2 :: rat) powi (0 - 23) = 1 / 8388608" by (simp add: power_int_def power_one_over)
  have v: "\<bar>2 - 1 / 2 ^ 24\<bar> / (1 / 8388608) = (33554431 / 2 :: rat)" by simp
  have f: "\<lfloor>33554431 / 2 :: rat\<rfloor> = 16777215"
    by (rule floor_unique) simp_all
  have r: "round_half_even (33554431 / 2) = 16777216"
    by (simp add: round_half_even_def Let_def f)
  show ?thesis
    unfolding binary32_def e q Let_def v r by simp
qed

text \<open>\<open>1 - 2\<^sup>-\<^sup>2\<^sup>4\<close> is a binary32 number, the largest below 1.\<close>

lemma binary32_below_1: "binary32 (1 - 1 / 2 ^ 24) = 1 - 1 / 2 ^ 24"
proof -
  have e: "binary32_exponent (1 - 1 / 2 ^ 24) = - 1"
    by (rule binary32_exponent_eq) (simp_all add: power_int_def power_one_over)
  have q: "(2 :: rat) powi (- 1 - 23) = 1 / 16777216" by (simp add: power_int_def power_one_over)
  have v: "\<bar>1 - 1 / 2 ^ 24\<bar> / (1 / 16777216) = (16777215 :: rat)" by simp
  have r: "round_half_even 16777215 = 16777215"
    using round_half_even_int [of 16777215] by simp
  show ?thesis
    unfolding binary32_def e q Let_def v r by simp
qed

text \<open>
  Claim C2. Every value returned by \<^verbatim>\<open>Get1D\<close> should lie in \<open>[0, 1)\<close>. The
  StratifiedSampler returns \<^verbatim>\<open>(stratum + delta) / SamplesPerPixel()\<close> without the
  bound \<^verbatim>\<open>OneMinusEpsilon\<close> that \<^verbatim>\<open>PMJ02BNSampler::Get1D\<close> puts on the same
  quotient. With \<^verbatim>\<open>Float\<close> rounded as binary32, a jittering sampler of 2 by 1 strata
  at sample 1 of pixel (0, 0), where the stratum is 1, whose generator draws
  \<open>1 - 2\<^sup>-\<^sup>2\<^sup>4\<close>, a binary32 number below 1, returns exactly 1.
\<close>

theorem Stratified_Get1D_reaches_one:
  "fl env_binary32 (1 - 1 / 2 ^ 24) = 1 - 1 / 2 ^ 24
   \<and> fst (RNG_Uniform env_binary32
            (st_rng (Stratified_StartPixelSample stratified_2x1 (0, 0) 1 0))) = 1 - 1 / 2 ^ 24
   \<and> SamplesPerPixel (Stratified stratified_2x1) = 2
   \<and> (\<exists>s'. Get1D env_binary32 (StartPixelSample env_binary32 (Stratified stratified_2x1) (0, 0) 1 0)
             = Inr (1, s'))"
proof -
  let ?s = "Stratified_StartPixelSample stratified_2x1 (0, 0) 1 0"
  have env: "fl env_binary32 = binary32"
    "\<And>sq pos. rng_stream env_binary32 sq pos = 1 - 1 / 2 ^ 24"
    "MixBits env_binary32 0 = 0"
    "PermutationElement env_binary32 1 2 0 = 1"
    by (simp_all add: env_binary32_def env_example_def)
  have s: "st_pixel ?s = (0, 0)" "st_dimension ?s = 0" "st_seed ?s = 0" "st_sampleIndex ?s = 1"
    "jitter ?s" "xPixelSamples ?s = 2" "yPixelSamples ?s = 1"
    by (simp_all add: Stratified_StartPixelSample_def stratified_2x1_def)
  have n: "Stratified_SamplesPerPixel ?s = 2"
    by (simp add: Stratified_SamplesPerPixel_def s s32_def)
  have n0: "SamplesPerPixel (Stratified stratified_2x1) = 2"
    by (simp add: Stratified_SamplesPerPixel_def stratified_2x1_def s32_def)
  have h: "pixel_hash env_binary32 (0, 0) 0 0 = 0"
    by (simp add: pixel_hash_def env)
  have p: "permuted_index env_binary32 1 2 0 = 1"
    by (simp add: permuted_index_def env)
  have d: "\<And>r. fst (RNG_Uniform env_binary32 r) = 1 - 1 / 2 ^ 24"
    by (simp only: RNG_Uniform_def fst_conv env)
  have d': "fst (Stratified_delta env_binary32 True (st_rng ?s)) = 1 - 1 / 2 ^ 24"
    by (simp only: Stratified_delta_def if_True d)
  have q: "fdiv env_binary32 (fadd env_binary32 (Float_of_int env_binary32 1) (1 - 1 / 2 ^ 24))
             (Float_of_int env_binary32 2) = 1"
    by (rule Stratified_quotient_rounded)
       (simp_all only: env binary32_1 binary32_2 binary32_below_2)
  from Stratified_Get1D_value [of env_binary32 ?s] obtain s' where
    "Stratified_Get1D env_binary32 ?s = Inr (1, s')"
    using s(5) by (simp only: s(1-4) n h p eqTrueI [OF s(5)] d' q) blast
  then have "Get1D env_binary32 (StartPixelSample env_binary32 (Stratified stratified_2x1) (0, 0) 1 0)
               = Inr (1, Stratified s')"
    by (simp add: tagged_def)
  then show ?thesis
    using d [of "st_rng ?s"] n0 by (auto simp only: env binary32_below_1)
qed

end
